theory Spec2Isabelle
  imports Complex_Main
begin

section \<open>A coordinate network for CT reconstruction: \<open>src/models/mlp.py\<close>\<close>

text \<open>
  The module defines the activation catalogue (\<open>get_activation_function\<close>, \<open>Sine\<close>), the
  sine initialisers (\<open>sine_init\<close>, \<open>first_layer_sine_init\<close>), the ray integrator
  (\<open>compute_projection_values\<close>) and the Lightning module \<open>MLP\<close> with its \<open>forward\<close>,
  \<open>training_step\<close>, \<open>validation_step\<close> and \<open>on_validation_epoch_end\<close>.

  Conventions of the embedding.
  \<^item> A Python exception is a value of \<open>py_error\<close>; a function that can raise returns
    \<open>py_error + 'a\<close>, with \<open>Inl\<close> for the exception.
  \<^item> A tensor is its shape and its entries in row-major order. The entries are real
    numbers and the arithmetic on them is exact: this is the model for what the module
    raises, for shapes, and for which entries are combined. Where the code divides by a
    count that can be zero (the mean of no elements), the quotient is made explicit as
    \<open>NaN\<close>.
  \<^item> The two properties that depend on the rounding of \<open>torch.float32\<close>, the ray integral
    of a constant density and the range of the final sigmoid, are settled on a model of
    the 32-bit arithmetic (\<open>round32\<close> and the operations built on it).
  \<^item> Objects the module mutates (the validation buffers, the logger) are fields of a state
    record that the step functions take and return.
\<close>

subsection \<open>Exceptions\<close>

datatype py_error =
    TypeError
  | ValueError string
  | RuntimeError
  | IndexError
  | ZeroDivisionError
  | AttributeError
  | UnboundLocalError string

definition and_then :: "py_error + 'a \<Rightarrow> ('a \<Rightarrow> py_error + 'b) \<Rightarrow> py_error + 'b" where
  "and_then r f = (case r of Inl e \<Rightarrow> Inl e | Inr x \<Rightarrow> f x)"

subsection \<open>Tensors\<close>

record tensor =
  shape :: "nat list"
  data :: "real list"

definition valid_tensor :: "tensor \<Rightarrow> bool" where
  "valid_tensor t = (length (data t) = prod_list (shape t))"

text \<open>\<open>blocks n k xs\<close> cuts \<open>xs\<close> into \<open>n\<close> consecutive pieces of \<open>k\<close> entries: the
  sub-tensors along the leading dimension.\<close>

definition blocks :: "nat \<Rightarrow> nat \<Rightarrow> 'a list \<Rightarrow> 'a list list" where
  "blocks n k xs = map (\<lambda>i. take k (drop (i * k) xs)) [0..<n]"

definition rows_of :: "tensor \<Rightarrow> real list list" where
  "rows_of t = blocks (shape t ! 0) (prod_list (tl (shape t))) (data t)"

text \<open>Broadcasting of two shapes, as torch does it: the shapes are aligned at their last
  dimension, the shorter one is padded with ones in front, and two sizes are compatible
  when they are equal or one of them is 1.\<close>

definition pad_shape :: "nat \<Rightarrow> nat list \<Rightarrow> nat list" where
  "pad_shape n s = replicate (n - length s) 1 @ s"

fun broadcast_dims :: "nat list \<Rightarrow> nat list \<Rightarrow> nat list option" where
  "broadcast_dims [] [] = Some []"
| "broadcast_dims (x # xs) (y # ys) =
     (if x = y \<or> x = 1 \<or> y = 1
      then (case broadcast_dims xs ys of
              None \<Rightarrow> None
            | Some zs \<Rightarrow> Some ((if x = 1 then y else x) # zs))
      else None)"
| "broadcast_dims _ _ = None"

definition broadcast_shapes :: "nat list \<Rightarrow> nat list \<Rightarrow> nat list option" where
  "broadcast_shapes a b =
     (let n = max (length a) (length b)
      in broadcast_dims (pad_shape n a) (pad_shape n b))"

fun expand_data :: "nat list \<Rightarrow> nat list \<Rightarrow> real list \<Rightarrow> real list" where
  "expand_data (s # ss) (t # ts) xs =
     (if s = t then concat (map (expand_data ss ts) (blocks s (prod_list ss) xs))
      else concat (replicate t (expand_data ss ts xs)))"
| "expand_data _ _ xs = xs"

declare expand_data.simps [simp del]

definition expand :: "tensor \<Rightarrow> nat list \<Rightarrow> real list" where
  "expand t s = expand_data (pad_shape (length s) (shape t)) s (data t)"

definition broadcast_op ::
  "(real \<Rightarrow> real \<Rightarrow> real) \<Rightarrow> tensor \<Rightarrow> tensor \<Rightarrow> py_error + tensor" where
  "broadcast_op f a b =
     (case broadcast_shapes (shape a) (shape b) of
        None \<Rightarrow> Inl RuntimeError
      | Some s \<Rightarrow> Inr \<lparr>shape = s, data = map2 f (expand a s) (expand b s)\<rparr>)"

text \<open>\<open>t[:, None]\<close>: a new dimension of size 1 after the first; a tensor of rank 0 has no
  first dimension to slice.\<close>

definition unsqueeze1 :: "tensor \<Rightarrow> py_error + tensor" where
  "unsqueeze1 t =
     (case shape t of
        [] \<Rightarrow> Inl IndexError
      | d # ds \<Rightarrow> Inr \<lparr>shape = d # 1 # ds, data = data t\<rparr>)"

definition add_lists :: "real list list \<Rightarrow> nat \<Rightarrow> real list" where
  "add_lists xss p = foldr (map2 (+)) xss (replicate p 0)"

text \<open>\<open>torch.sum(t, dim=1)\<close>: dimension 1 is summed away; a tensor of rank below 2 has no
  dimension 1.\<close>

definition sum_dim1 :: "tensor \<Rightarrow> py_error + tensor" where
  "sum_dim1 t =
     (case shape t of
        d0 # d1 # ds \<Rightarrow>
          (let p = prod_list ds
           in Inr \<lparr>shape = d0 # ds,
                   data = concat (map (\<lambda>b. add_lists (blocks d1 p b) p)
                                      (blocks d0 (d1 * p) (data t)))\<rparr>)
      | _ \<Rightarrow> Inl IndexError)"

definition scale_tensor :: "real \<Rightarrow> tensor \<Rightarrow> tensor" where
  "scale_tensor k t = t\<lparr>data := map (\<lambda>x. k * x) (data t)\<rparr>"

subsection \<open>The ray integrator\<close>

text \<open>
  \<^verbatim>\<open>
  def compute_projection_values(num_points: int, attenuation_values, lengths):
      I0 = 1
      dx = lengths / (num_points)
      attenuation_sum = torch.sum(attenuation_values * dx[:,None], dim=1)
      return attenuation_sum
  \<close>
  With \<open>num_points = 0\<close> torch fills \<open>dx\<close> with infinities or not-a-numbers and raises
  nothing; real-valued entries cannot hold these, so the statements about this function
  are for \<open>num_points \<ge> 1\<close>. The arithmetic here is exact;
  \<open>compute_projection_values_float32\<close> below is the same computation with every operation
  rounded to a 32-bit float.
\<close>

definition compute_projection_values :: "int \<Rightarrow> tensor \<Rightarrow> tensor \<Rightarrow> py_error + tensor" where
  "compute_projection_values num_points attenuation_values lengths =
     (let dx = lengths\<lparr>data := map (\<lambda>l. l / real_of_int num_points) (data lengths)\<rparr>
      in and_then (unsqueeze1 dx) (\<lambda>dx1.
         and_then (broadcast_op (*) attenuation_values dx1) sum_dim1))"

subsection \<open>Configuration\<close>

text \<open>
  \<open>args_dict\<close> is a dictionary of dictionaries; its entries are the fields of a record,
  named by section and key (\<open>args_dict['training']['device']\<close> is \<open>training_device\<close>).
  The encoder comes from \<open>src.encoder.get_encoder\<close>, which is not part of the module:
  the configuration holds the encoder that call returns, a function on tensors together
  with its declared \<open>output_dim\<close>.
\<close>

record coordinate_encoder =
  output_dim :: nat
  encode :: "tensor \<Rightarrow> py_error + tensor"

record args =
  training_learning_rate :: real
  training_imagefit_mode :: bool
  training_regularization_weight :: real
  training_device :: string
  model_num_freq_bands :: int
  model_num_hidden_layers :: int
  model_num_hidden_features :: nat
  model_activation_function :: string
  model_latent_size :: nat
  model_encoder :: "coordinate_encoder option"

subsection \<open>Activations\<close>

text \<open>
  The activation modules of \<open>torch.nn\<close> with their default parameters (both call sites
  pass no keyword arguments), and the module's own \<open>Sine\<close>:
  \<^verbatim>\<open>
  class Sine(torch.nn.Module):
      def forward(self, input):
          return torch.sin(30 * input)
  \<close>
  The functions are the exact ones on real numbers; \<open>sigmoid32\<close> below is
  \<open>torch.nn.Sigmoid\<close> as 32-bit floats compute it.
\<close>

datatype activation = ReLU | LeakyReLU | Sigmoid | Tanh | ELU | Identity | Sine

fun activation_fn :: "activation \<Rightarrow> real \<Rightarrow> real" where
  "activation_fn ReLU x = max 0 x"
| "activation_fn LeakyReLU x = (if 0 \<le> x then x else x / 100)"
| "activation_fn Sigmoid x = 1 / (1 + exp (- x))"
| "activation_fn Tanh x = tanh x"
| "activation_fn ELU x = (if 0 < x then x else exp x - 1)"
| "activation_fn Identity x = x"
| "activation_fn Sine x = sin (30 * x)"

text \<open>
  \<^verbatim>\<open>
  def get_activation_function(activation_function,args_dict,**kwargs):
      if activation_function == 'relu':
          return torch.nn.ReLU(**kwargs)
      elif activation_function == 'leaky_relu':
          return torch.nn.LeakyReLU(**kwargs)
      elif activation_function == 'sigmoid':
          return torch.nn.Sigmoid(**kwargs)
      elif activation_function == 'tanh':
          return torch.nn.Tanh(**kwargs)
      elif activation_function == 'elu':
          return torch.nn.ELU(**kwargs)
      elif activation_function == 'none':
          return torch.nn.Identity(**kwargs)
      elif activation_function == 'sine':
          return torch.jit.script(Sine(**kwargs)).to(device=args_dict['training']['device'])
      else:
          raise ValueError(f"Unknown activation function: {activation_function}")
  \<close>
  Moving \<open>Sine\<close>, which has no parameters, to a device does not change the function it
  computes.
\<close>

definition get_activation_function :: "string \<Rightarrow> args \<Rightarrow> py_error + activation" where
  "get_activation_function activation_function args_dict =
     (if activation_function = ''relu'' then Inr ReLU
      else if activation_function = ''leaky_relu'' then Inr LeakyReLU
      else if activation_function = ''sigmoid'' then Inr Sigmoid
      else if activation_function = ''tanh'' then Inr Tanh
      else if activation_function = ''elu'' then Inr ELU
      else if activation_function = ''none'' then Inr Identity
      else if activation_function = ''sine'' then Inr Sine
      else Inl (ValueError (''Unknown activation function: '' @ activation_function)))"

subsection \<open>Reshaping and concatenation\<close>

text \<open>
  \<open>t.view(dims)\<close>: at most one entry of \<open>dims\<close> is \<open>-1\<close> and stands for the size that
  makes the number of entries fit; torch raises a RuntimeError when no size or more than
  one size fits. (The tensors of this module are contiguous, so strides play no part.)
\<close>

definition view_shape :: "nat \<Rightarrow> int list \<Rightarrow> py_error + nat list" where
  "view_shape numel dims =
     (if list_ex (\<lambda>d. d < - 1) dims then Inl RuntimeError
      else if 1 < length (filter (\<lambda>d. d = - 1) dims) then Inl RuntimeError
      else if list_ex (\<lambda>d. d = - 1) dims then
        (let p = prod_list (map nat (filter (\<lambda>d. d \<noteq> - 1) dims))
         in if p = 0 then Inl RuntimeError
            else if numel mod p \<noteq> 0 then Inl RuntimeError
            else Inr (map (\<lambda>d. if d = - 1 then numel div p else nat d) dims))
      else if prod_list (map nat dims) = numel then Inr (map nat dims)
      else Inl RuntimeError)"

definition view :: "tensor \<Rightarrow> int list \<Rightarrow> py_error + tensor" where
  "view t dims =
     and_then (view_shape (prod_list (shape t)) dims) (\<lambda>s. Inr \<lparr>shape = s, data = data t\<rparr>)"

text \<open>
  \<open>torch.cat([vecs, enc], dim=1)\<close>. An entry that is not a tensor is a TypeError. A
  tensor of shape \<open>[0]\<close> is skipped (torch keeps this rule for empty one-dimensional
  tensors). The other tensors need a dimension 1, the same rank, and the same sizes in
  every dimension but dimension 1.
\<close>

definition cat_skipped :: "tensor \<Rightarrow> bool" where
  "cat_skipped t = (shape t = [0])"

definition cat_alone :: "tensor \<Rightarrow> py_error + tensor" where
  "cat_alone t =
     (if length (shape t) = 0 then Inl RuntimeError
      else if length (shape t) < 2 then Inl IndexError
      else Inr t)"

definition cat_dim1 :: "tensor option \<Rightarrow> tensor \<Rightarrow> py_error + tensor" where
  "cat_dim1 vecs enc =
     (case vecs of
        None \<Rightarrow> Inl TypeError
      | Some v \<Rightarrow>
          if cat_skipped v \<and> cat_skipped enc then Inr \<lparr>shape = [0], data = []\<rparr>
          else if cat_skipped v then cat_alone enc
          else if cat_skipped enc then cat_alone v
          else if length (shape v) = 0 then Inl RuntimeError
          else if length (shape v) < 2 then Inl IndexError
          else if length (shape enc) \<noteq> length (shape v) then Inl RuntimeError
          else if hd (shape v) \<noteq> hd (shape enc) \<or> drop 2 (shape v) \<noteq> drop 2 (shape enc)
            then Inl RuntimeError
          else
            (let rest = prod_list (drop 2 (shape v));
                 n = hd (shape v); p = shape v ! 1; q = shape enc ! 1
             in Inr \<lparr>shape = n # (p + q) # drop 2 (shape v),
                     data = concat (map2 (@) (blocks n (p * rest) (data v))
                                             (blocks n (q * rest) (data enc)))\<rparr>))"

subsection \<open>Layers\<close>

text \<open>
  \<open>torch.nn.Linear(in_features, out_features)\<close> holds a weight of shape
  \<open>[out_features, in_features]\<close> and a bias of shape \<open>[out_features]\<close>; it maps every
  row \<open>x\<close> of its input (the last dimension) to \<open>W x + b\<close> and needs the last dimension
  of the input to be \<open>in_features\<close>.
\<close>

record linear_layer =
  weight :: tensor
  bias :: tensor

definition valid_linear :: "linear_layer \<Rightarrow> bool" where
  "valid_linear l =
     (length (shape (weight l)) = 2 \<and> valid_tensor (weight l)
      \<and> shape (bias l) = [hd (shape (weight l))] \<and> valid_tensor (bias l))"

definition linear_forward :: "linear_layer \<Rightarrow> tensor \<Rightarrow> py_error + tensor" where
  "linear_forward l x =
     (case shape (weight l) of
        [n_out, n_in] \<Rightarrow>
          if shape x = [] \<or> last (shape x) \<noteq> n_in then Inl RuntimeError
          else Inr \<lparr>shape = butlast (shape x) @ [n_out],
                    data = concat (map (\<lambda>row.
                              map2 (\<lambda>w b. sum_list (map2 (*) w row) + b)
                                (blocks n_out n_in (data (weight l))) (data (bias l)))
                             (blocks (prod_list (butlast (shape x))) n_in (data x)))\<rparr>
      | _ \<Rightarrow> Inl RuntimeError)"

datatype module =
    Linear linear_layer
  | Activation activation
  | Sequential "module list"

fun module_forward :: "module \<Rightarrow> tensor \<Rightarrow> py_error + tensor"
  and modules_forward :: "module list \<Rightarrow> tensor \<Rightarrow> py_error + tensor" where
  "module_forward (Linear l) x = linear_forward l x"
| "module_forward (Activation a) x = Inr (x\<lparr>data := map (activation_fn a) (data x)\<rparr>)"
| "module_forward (Sequential ms) x = modules_forward ms x"
| "modules_forward [] x = Inr x"
| "modules_forward (m # ms) x =
     (case module_forward m x of Inl e \<Rightarrow> Inl e | Inr y \<Rightarrow> modules_forward ms y)"

text \<open>
  The network \<open>self.mlp\<close> as \<open>__init__\<close> assembles it:
  \<^verbatim>\<open>
  layers = []
  for i in range(self.num_hidden_layers):
      layers.append(torch.nn.Sequential(torch.nn.Linear(h, h), get_activation_function(...)))
  self.mlp = torch.nn.Sequential(torch.nn.Linear(num_input_features, h),
                                 get_activation_function(...),
                                 *layers,
                                 torch.nn.Linear(h, 1),
                                 torch.nn.Sigmoid())
  \<close>
\<close>

definition build_mlp ::
  "activation \<Rightarrow> linear_layer \<Rightarrow> linear_layer list \<Rightarrow> linear_layer \<Rightarrow> module" where
  "build_mlp act first hidden final =
     Sequential ([Linear first, Activation act]
                 @ map (\<lambda>l. Sequential [Linear l, Activation act]) hidden
                 @ [Linear final, Activation Sigmoid])"

subsection \<open>The model\<close>

text \<open>A scalar that a reduction returns: torch's mean of no elements is not-a-number.\<close>

datatype scalar = Num real | NaN

datatype log_entry =
    LogDict "(string \<times> scalar) list"
  | LogValue string scalar
  | LogImage string "tensor list" "string list"

record mlp =
  projection_shape :: "nat list"
  lr :: real
  imagefit_mode :: bool
  l1_regularization_weight :: real
  num_freq_bands :: int
  num_hidden_layers :: int
  num_hidden_features :: nat
  activation_function :: string
  latent_size :: nat
  encoder :: "coordinate_encoder option"
  lat_vecs :: "tensor option"
  net :: module
  validation_step_outputs :: "tensor list"
  validation_step_gt :: "tensor list"
  vol_shape :: "nat list option"
  logged :: "log_entry list"

text \<open>
  \<^verbatim>\<open>
  def forward(self, pts, vecs):
      pts_shape = pts.shape
      if len(pts.shape) > 2:
          pts = pts.view(-1,3)
      if self.encoder != None:
          enc = self.encoder(pts)
      else:
          enc = pts
      enc = torch.cat([vecs, enc], dim=1)
      out = self.mlp(enc)
      if len(pts_shape) > 2:
          out = out.view(*pts_shape[:-1],-1)
      return out
  \<close>
  The latent argument is \<open>None\<close> or a tensor.
\<close>

definition forward :: "mlp \<Rightarrow> tensor \<Rightarrow> tensor option \<Rightarrow> py_error + tensor" where
  "forward self pts vecs =
     (let pts_shape = shape pts
      in and_then (if 2 < length pts_shape then view pts [- 1, 3] else Inr pts) (\<lambda>pts.
         and_then (case encoder self of Some e \<Rightarrow> encode e pts | None \<Rightarrow> Inr pts) (\<lambda>enc.
         and_then (cat_dim1 vecs enc) (\<lambda>enc.
         and_then (module_forward (net self) enc) (\<lambda>out.
         if 2 < length pts_shape then view out (map int (butlast pts_shape) @ [- 1])
         else Inr out)))))"

text \<open>
  The call \<open>self.forward(pts)\<close> gives no value for the required parameter \<open>vecs\<close>:
  Python raises a TypeError before the body of \<open>forward\<close> runs.
\<close>

definition forward_one_argument :: "mlp \<Rightarrow> tensor \<Rightarrow> py_error + tensor" where
  "forward_one_argument self pts = Inl TypeError"

subsection \<open>Random initialisation\<close>

text \<open>
  The generator is a supply of draws and a position in it: \<open>uniform_draws\<close> are the draws
  from the unit interval \<open>[0, 1)\<close> and \<open>normal_draws\<close> the standard normal draws that torch
  transforms into the samples it stores. \<open>Tensor.uniform_(from, to)\<close> stores
  \<open>from + u * (to - from)\<close> for a fresh unit draw \<open>u\<close> per entry and refuses \<open>from > to\<close>;
  \<open>normal_(mean, std)\<close> stores \<open>mean + z * std\<close>.
\<close>

record rng =
  uniform_draws :: "nat \<Rightarrow> real"
  normal_draws :: "nat \<Rightarrow> real"
  position :: nat

definition uniform_fill :: "rng \<Rightarrow> tensor \<Rightarrow> real \<Rightarrow> real \<Rightarrow> tensor \<times> rng" where
  "uniform_fill g t lo hi =
     (t\<lparr>data := map (\<lambda>i. lo + uniform_draws g (position g + i) * (hi - lo))
                    [0..<length (data t)]\<rparr>,
      g\<lparr>position := position g + length (data t)\<rparr>)"

definition normal_fill :: "rng \<Rightarrow> tensor \<Rightarrow> real \<Rightarrow> real \<Rightarrow> tensor \<times> rng" where
  "normal_fill g t mu sigma =
     (t\<lparr>data := map (\<lambda>i. mu + normal_draws g (position g + i) * sigma)
                    [0..<length (data t)]\<rparr>,
      g\<lparr>position := position g + length (data t)\<rparr>)"

definition tensor_uniform :: "rng \<Rightarrow> tensor \<Rightarrow> real \<Rightarrow> real \<Rightarrow> py_error + tensor \<times> rng" where
  "tensor_uniform g t lo hi = (if hi < lo then Inl RuntimeError else Inr (uniform_fill g t lo hi))"




subsection \<open>Sine initialisation\<close>

text \<open>
  \<^verbatim>\<open>
  def sine_init(m):
      with torch.no_grad():
          if hasattr(m, 'weight'):
              num_input = m.weight.size(-1)
              m.weight.uniform_(-np.sqrt(6 / num_input) / 30, np.sqrt(6 / num_input) / 30)

  def first_layer_sine_init(m):
      with torch.no_grad():
          if hasattr(m, 'weight'):
              num_input = m.weight.size(-1)
              m.weight.uniform_(-1 / num_input, 1 / num_input)
  \<close>
  Of the modules of this network only \<open>Linear\<close> has a \<open>weight\<close>. The initialisers change
  the module in place, so they return the module as it is when they end, together with
  the exception if one was raised: \<open>6 / num_input\<close> and \<open>1 / num_input\<close> divide Python
  integers, a ZeroDivisionError when \<open>num_input\<close> is 0.
\<close>

definition fan_in :: "linear_layer \<Rightarrow> nat" where
  "fan_in l = last (shape (weight l))"

definition init_weight ::
  "(nat \<Rightarrow> real) \<Rightarrow> rng \<Rightarrow> module \<Rightarrow> py_error option \<times> module \<times> rng" where
  "init_weight bound g m =
     (case m of
        Linear l \<Rightarrow>
          if shape (weight l) = [] then (Some IndexError, m, g)
          else
            (let num_input = fan_in l
             in if num_input = 0 then (Some ZeroDivisionError, m, g)
                else (case tensor_uniform g (weight l) (- bound num_input) (bound num_input) of
                        Inl e \<Rightarrow> (Some e, m, g)
                      | Inr (w, g') \<Rightarrow> (None, Linear (l\<lparr>weight := w\<rparr>), g')))
      | _ \<Rightarrow> (None, m, g))"

definition sine_init :: "rng \<Rightarrow> module \<Rightarrow> py_error option \<times> module \<times> rng" where
  "sine_init = init_weight (\<lambda>num_input. sqrt (6 / real num_input) / 30)"

definition first_layer_sine_init :: "rng \<Rightarrow> module \<Rightarrow> py_error option \<times> module \<times> rng" where
  "first_layer_sine_init = init_weight (\<lambda>num_input. 1 / real num_input)"

text \<open>
  \<open>Module.apply(fn)\<close>: \<open>fn\<close> on every child, recursively and in order, then on the module
  itself. An exception ends the traversal and leaves the modules visited so far changed.
\<close>

fun module_apply ::
    "(rng \<Rightarrow> module \<Rightarrow> py_error option \<times> module \<times> rng) \<Rightarrow> rng \<Rightarrow> module
      \<Rightarrow> py_error option \<times> module \<times> rng"
  and modules_apply ::
    "(rng \<Rightarrow> module \<Rightarrow> py_error option \<times> module \<times> rng) \<Rightarrow> rng \<Rightarrow> module list
      \<Rightarrow> py_error option \<times> module list \<times> rng" where
  "module_apply fn g (Linear l) = fn g (Linear l)"
| "module_apply fn g (Activation a) = fn g (Activation a)"
| "module_apply fn g (Sequential ms) =
     (case modules_apply fn g ms of
        (Some e, ms', g') \<Rightarrow> (Some e, Sequential ms', g')
      | (None, ms', g') \<Rightarrow> fn g' (Sequential ms'))"
| "modules_apply fn g [] = (None, [], g)"
| "modules_apply fn g (m # ms) =
     (case module_apply fn g m of
        (Some e, m', g') \<Rightarrow> (Some e, m' # ms, g')
      | (None, m', g') \<Rightarrow>
          (case modules_apply fn g' ms of (r, ms', g'') \<Rightarrow> (r, m' # ms', g'')))"


text \<open>The linear layers of a module in the order of the forward pass, whether all weights
  of a layer lie within \<open>[-c, c]\<close>, and a module with the entries of its weights blanked
  out (what is left is everything but the weight values: structure, activations, biases
  and the shapes of the weights).\<close>

fun linears :: "module \<Rightarrow> linear_layer list"
  and linears_list :: "module list \<Rightarrow> linear_layer list" where
  "linears (Linear l) = [l]"
| "linears (Activation a) = []"
| "linears (Sequential ms) = linears_list ms"
| "linears_list [] = []"
| "linears_list (m # ms) = linears m @ linears_list ms"


fun without_weights :: "module \<Rightarrow> module"
  and without_weights_list :: "module list \<Rightarrow> module list" where
  "without_weights (Linear l) = Linear (l\<lparr>weight := (weight l)\<lparr>data := []\<rparr>\<rparr>)"
| "without_weights (Activation a) = Activation a"
| "without_weights (Sequential ms) = Sequential (without_weights_list ms)"
| "without_weights_list [] = []"
| "without_weights_list (m # ms) = without_weights m # without_weights_list ms"

subsection \<open>Construction\<close>



text \<open>What the statements about random initialisation assume of the generator: its unit
  draws lie in \<open>[0, 1)\<close>.\<close>

definition unit_draws :: "rng \<Rightarrow> bool" where
  "unit_draws g = (\<forall>i. 0 \<le> uniform_draws g i \<and> uniform_draws g i < 1)"

subsection \<open>More tensor operations\<close>

text \<open>\<open>select_dim k i t\<close> is \<open>t\<close> indexed with \<open>i\<close> in dimension \<open>k\<close> and \<open>:\<close> elsewhere.\<close>

definition select_dim :: "nat \<Rightarrow> nat \<Rightarrow> tensor \<Rightarrow> py_error + tensor" where
  "select_dim k i t =
     (if length (shape t) \<le> k then Inl IndexError
      else if shape t ! k \<le> i then Inl IndexError
      else
        (let outer = prod_list (take k (shape t));
             inner = prod_list (drop (Suc k) (shape t))
         in Inr \<lparr>shape = take k (shape t) @ drop (Suc k) (shape t),
                 data = concat (map (\<lambda>b. take inner (drop (i * inner) b))
                                    (blocks outer (shape t ! k * inner) (data t)))\<rparr>))"

text \<open>\<open>t[:, 1:]\<close> and \<open>t[:, :-1]\<close>.\<close>

definition drop_first_dim1 :: "tensor \<Rightarrow> py_error + tensor" where
  "drop_first_dim1 t =
     (case shape t of
        d0 # d1 # ds \<Rightarrow>
          (let p = prod_list ds
           in Inr \<lparr>shape = d0 # (d1 - 1) # ds,
                   data = concat (map (drop p) (blocks d0 (d1 * p) (data t)))\<rparr>)
      | _ \<Rightarrow> Inl IndexError)"

definition drop_last_dim1 :: "tensor \<Rightarrow> py_error + tensor" where
  "drop_last_dim1 t =
     (case shape t of
        d0 # d1 # ds \<Rightarrow>
          (let p = prod_list ds
           in Inr \<lparr>shape = d0 # (d1 - 1) # ds,
                   data = concat (map (take ((d1 - 1) * p)) (blocks d0 (d1 * p) (data t)))\<rparr>)
      | _ \<Rightarrow> Inl IndexError)"

text \<open>\<open>torch.linalg.norm(t, dim=1)\<close>: the Euclidean norm along dimension 1.\<close>

definition norm_dim1 :: "tensor \<Rightarrow> py_error + tensor" where
  "norm_dim1 t =
     and_then (sum_dim1 (t\<lparr>data := map (\<lambda>x. x * x) (data t)\<rparr>))
       (\<lambda>s. Inr (s\<lparr>data := map sqrt (data s)\<rparr>))"

text \<open>The reductions of \<open>torch.nn.MSELoss()\<close> and \<open>torch.nn.L1Loss()\<close>: the mean over all
  entries, after broadcasting the two arguments against each other (torch warns and
  broadcasts when the shapes differ, and raises when they cannot be broadcast).\<close>

definition mean :: "real list \<Rightarrow> scalar" where
  "mean xs = (if xs = [] then NaN else Num (sum_list xs / real (length xs)))"

fun scalar_add :: "scalar \<Rightarrow> scalar \<Rightarrow> scalar" where
  "scalar_add (Num a) (Num b) = Num (a + b)"
| "scalar_add _ _ = NaN"

fun scalar_mult :: "real \<Rightarrow> scalar \<Rightarrow> scalar" where
  "scalar_mult w (Num a) = Num (w * a)"
| "scalar_mult w NaN = NaN"

definition mse_loss :: "tensor \<Rightarrow> tensor \<Rightarrow> py_error + scalar" where
  "mse_loss a b =
     and_then (broadcast_op (\<lambda>x y. (x - y) * (x - y)) a b) (\<lambda>d. Inr (mean (data d)))"

definition l1_loss :: "tensor \<Rightarrow> tensor \<Rightarrow> py_error + scalar" where
  "l1_loss a b = and_then (broadcast_op (\<lambda>x y. \<bar>x - y\<bar>) a b) (\<lambda>d. Inr (mean (data d)))"

text \<open>Tensors of indices, the lookup of \<open>torch.nn.Embedding\<close>, and \<open>Tensor.repeat\<close> with
  four repeat counts.\<close>

record index_tensor =
  ishape :: "nat list"
  idata :: "int list"

definition to_float :: "index_tensor \<Rightarrow> tensor" where
  "to_float t = \<lparr>shape = ishape t, data = map real_of_int (idata t)\<rparr>"

definition embedding :: "tensor \<Rightarrow> index_tensor \<Rightarrow> py_error + tensor" where
  "embedding w t =
     (case shape w of
        [num, width] \<Rightarrow>
          if list_ex (\<lambda>i. i < 0 \<or> int num \<le> i) (idata t) then Inl IndexError
          else Inr \<lparr>shape = ishape t @ [width],
                    data = concat (map (\<lambda>i. take width (drop (nat i * width) (data w)))
                                       (idata t))\<rparr>
      | _ \<Rightarrow> Inl RuntimeError)"

fun tile_data :: "nat list \<Rightarrow> nat list \<Rightarrow> real list \<Rightarrow> real list" where
  "tile_data (s # ss) (r # rs) xs =
     concat (replicate r (concat (map (tile_data ss rs) (blocks s (prod_list ss) xs))))"
| "tile_data _ _ xs = xs"

definition repeat4 :: "tensor \<Rightarrow> nat list \<Rightarrow> py_error + tensor" where
  "repeat4 t reps =
     (if 4 < length (shape t) then Inl RuntimeError
      else Inr \<lparr>shape = map2 (*) (pad_shape 4 (shape t)) reps,
                data = tile_data (pad_shape 4 (shape t)) reps (data t)\<rparr>)"

subsection \<open>Training and validation steps\<close>

record batch =
  points :: tensor
  target :: tensor
  idxs :: index_tensor

text \<open>
  The imagefit branch of both steps:
  \<^verbatim>\<open>
  attenuation_values = self.forward(points,
      self.lat_vecs(idxs).repeat(1,points.shape[1],points.shape[2],1).view(-1,self.latent_size))
  attenuation_values = attenuation_values.view(target.shape)
  \<close>
  \<open>self.lat_vecs\<close> exists only when the model was constructed in imagefit mode.
\<close>

definition imagefit_attenuation :: "mlp \<Rightarrow> batch \<Rightarrow> py_error + tensor" where
  "imagefit_attenuation self b =
     (case lat_vecs self of
        None \<Rightarrow> Inl AttributeError
      | Some w \<Rightarrow>
          and_then (embedding w (idxs b)) (\<lambda>lv.
          if length (shape (points b)) < 3 then Inl IndexError
          else
            and_then (repeat4 lv [1, shape (points b) ! 1, shape (points b) ! 2, 1]) (\<lambda>rep.
            and_then (view rep [- 1, int (latent_size self)]) (\<lambda>vecs.
            and_then (forward self (points b) (Some vecs)) (\<lambda>out.
            view out (map int (shape (target b))))))))"

text \<open>
  The projection branch of both steps:
  \<^verbatim>\<open>
  lengths = torch.linalg.norm((points[:,-1,:] - points[:,0,:]),dim=1)
  attenuation_values = self.forward(points, idxs).view(points.shape[0],points.shape[1])
  detector_value_hat = compute_projection_values(points.shape[1],attenuation_values,lengths)
  smoothness_loss = self.l1_regularization(attenuation_values[:,1:],attenuation_values[:,:-1])
  loss = self.loss_fn(detector_value_hat, target)
  \<close>
  \<open>forward\<close> receives the batch's index tensor as its latent argument.
\<close>

definition ray_lengths :: "tensor \<Rightarrow> py_error + tensor" where
  "ray_lengths pts =
     (if length (shape pts) < 3 then Inl IndexError
      else if shape pts ! 1 = 0 then Inl IndexError
      else
        and_then (select_dim 1 (shape pts ! 1 - 1) pts) (\<lambda>last_point.
        and_then (select_dim 1 0 pts) (\<lambda>first_point.
        and_then (broadcast_op (-) last_point first_point) norm_dim1)))"

definition projection_attenuation :: "mlp \<Rightarrow> batch \<Rightarrow> py_error + tensor" where
  "projection_attenuation self b =
     and_then (forward self (points b) (Some (to_float (idxs b)))) (\<lambda>out.
     view out [int (shape (points b) ! 0), int (shape (points b) ! 1)])"

definition smoothness :: "tensor \<Rightarrow> py_error + scalar" where
  "smoothness attenuation_values =
     and_then (drop_first_dim1 attenuation_values) (\<lambda>a.
     and_then (drop_last_dim1 attenuation_values) (\<lambda>b. l1_loss a b))"

text \<open>
  \<^verbatim>\<open>
  def training_step(self, batch, batch_idx):
      points, target, idxs = batch
      if self.imagefit_mode:
          ...
          loss = self.loss_fn(attenuation_values,target)
          self.log_dict({"train/loss": loss}, ...)
          return loss
      else:
          ...
          total_loss = loss + self.l1_regularization_weight*smoothness_loss
          self.log_dict({"train/loss": loss, "train/loss_total":total_loss,
                         "train/l1_regularization":smoothness_loss}, ...)
          return total_loss
  \<close>
  The step returns the loss and the model with the logged values added.
\<close>

definition training_step :: "mlp \<Rightarrow> batch \<Rightarrow> py_error + scalar \<times> mlp" where
  "training_step self b =
     (if imagefit_mode self then
        and_then (imagefit_attenuation self b) (\<lambda>attenuation_values.
        and_then (mse_loss attenuation_values (target b)) (\<lambda>loss.
        Inr (loss, self\<lparr>logged := logged self @ [LogDict [(''train/loss'', loss)]]\<rparr>)))
      else
        and_then (ray_lengths (points b)) (\<lambda>lengths.
        and_then (projection_attenuation self b) (\<lambda>attenuation_values.
        and_then (compute_projection_values (int (shape (points b) ! 1))
                    attenuation_values lengths) (\<lambda>detector_value_hat.
        and_then (smoothness attenuation_values) (\<lambda>smoothness_loss.
        and_then (mse_loss detector_value_hat (target b)) (\<lambda>loss.
        let total_loss =
              scalar_add loss (scalar_mult (l1_regularization_weight self) smoothness_loss)
        in Inr (total_loss,
                self\<lparr>logged := logged self @
                   [LogDict [(''train/loss'', loss), (''train/loss_total'', total_loss),
                             (''train/l1_regularization'', smoothness_loss)]]\<rparr>)))))))"

text \<open>
  \<^verbatim>\<open>
  def validation_step(self, batch, batch_idx):
      points, target, idxs = batch
      if self.imagefit_mode:
          ...
          loss = self.loss_fn(attenuation_values,target)
          self.validation_step_outputs.append(attenuation_values)
          self.validation_step_gt.append(target)
      else:
          ...
          smoothness_loss = self.l1_regularization(...)
          loss = self.loss_fn(detector_value_hat, target)
          self.validation_step_outputs.append(detector_value_hat.detach().cpu())
          self.validation_step_gt.append(target.detach().cpu())
          total_loss = loss + self.l1_regularization_weight*smoothness_loss
      self.log_dict({"val/loss": loss, "val/loss_total":total_loss,
                     "val/l1_regularization":smoothness_loss}, ...)
  \<close>
  The local variables \<open>total_loss\<close> and \<open>smoothness_loss\<close> are bound in the projection
  branch only; reading an unbound local raises UnboundLocalError. The dictionary is built
  entry by entry before \<open>log_dict\<close> is called. The step changes the buffers in place, so it
  returns the model as it is when the step ends, with the exception if one was raised.
\<close>

definition local_variable :: "string \<Rightarrow> 'a option \<Rightarrow> py_error + 'a" where
  "local_variable name v = (case v of None \<Rightarrow> Inl (UnboundLocalError name) | Some x \<Rightarrow> Inr x)"

definition or_raise ::
  "py_error + 'a \<Rightarrow> mlp \<Rightarrow> ('a \<Rightarrow> py_error option \<times> mlp) \<Rightarrow> py_error option \<times> mlp" where
  "or_raise r self f = (case r of Inl e \<Rightarrow> (Some e, self) | Inr x \<Rightarrow> f x)"

definition log_validation ::
  "mlp \<Rightarrow> scalar option \<Rightarrow> scalar option \<Rightarrow> scalar option \<Rightarrow> py_error option \<times> mlp" where
  "log_validation self loss total_loss smoothness_loss =
     or_raise (local_variable ''loss'' loss) self (\<lambda>l.
     or_raise (local_variable ''total_loss'' total_loss) self (\<lambda>t.
     or_raise (local_variable ''smoothness_loss'' smoothness_loss) self (\<lambda>s.
     (None, self\<lparr>logged := logged self @
               [LogDict [(''val/loss'', l), (''val/loss_total'', t),
                         (''val/l1_regularization'', s)]]\<rparr>))))"

definition validation_step :: "mlp \<Rightarrow> batch \<Rightarrow> py_error option \<times> mlp" where
  "validation_step self b =
     (if imagefit_mode self then
        or_raise (imagefit_attenuation self b) self (\<lambda>attenuation_values.
        or_raise (mse_loss attenuation_values (target b)) self (\<lambda>loss.
        let self1 = self\<lparr>validation_step_outputs :=
                            validation_step_outputs self @ [attenuation_values],
                          validation_step_gt := validation_step_gt self @ [target b]\<rparr>
        in log_validation self1 (Some loss) None None))
      else
        or_raise (ray_lengths (points b)) self (\<lambda>lengths.
        or_raise (projection_attenuation self b) self (\<lambda>attenuation_values.
        or_raise (compute_projection_values (int (shape (points b) ! 1))
                    attenuation_values lengths) self (\<lambda>detector_value_hat.
        or_raise (smoothness attenuation_values) self (\<lambda>smoothness_loss.
        or_raise (mse_loss detector_value_hat (target b)) self (\<lambda>loss.
        let self1 = self\<lparr>validation_step_outputs :=
                            validation_step_outputs self @ [detector_value_hat],
                          validation_step_gt := validation_step_gt self @ [target b]\<rparr>;
            total_loss =
              scalar_add loss (scalar_mult (l1_regularization_weight self) smoothness_loss)
        in log_validation self1 (Some loss) (Some total_loss) (Some smoothness_loss)))))))"

text \<open>The two terms of the projection loss in the words of the specification: the mean of
  the squared differences between predicted and measured detector values, and the mean
  of \<open>|density[i+1] - density[i]|\<close> over every adjacent pair of samples of every ray.\<close>

definition mean_squared_error :: "real list \<Rightarrow> real list \<Rightarrow> scalar" where
  "mean_squared_error xs ys = mean (map2 (\<lambda>x y. (x - y)\<^sup>2) xs ys)"

definition mean_abs_adjacent :: "real list list \<Rightarrow> scalar" where
  "mean_abs_adjacent rays =
     mean (concat (map (\<lambda>ray. map (\<lambda>i. \<bar>ray ! (i + 1) - ray ! i\<bar>) [0..<length ray - 1]) rays))"

subsection \<open>The end of a validation epoch\<close>

text \<open>
  What the step reads from outside the module: the validation dataset's volume and
  validity mask, the five integers that \<open>np.random.randint\<close> draws, and the
  peak-signal-to-noise metric of torchmetrics. The logger is the \<open>logged\<close> field of the
  model.
\<close>

record mask_tensor =
  mshape :: "nat list"
  mdata :: "bool list"

record validation_env =
  dataset_vol :: tensor
  dataset_valid_rays :: mask_tensor
  random_draws :: "nat list"
  psnr :: "tensor \<Rightarrow> tensor \<Rightarrow> scalar"

text \<open>\<open>torch.cat(tensors)\<close> along dimension 0: the list must not be empty, tensors of
  shape \<open>[0]\<close> are skipped, and the others need rank at least 1 and equal shapes but for
  dimension 0.\<close>

definition cat_dim0 :: "tensor list \<Rightarrow> py_error + tensor" where
  "cat_dim0 ts =
     (if ts = [] then Inl RuntimeError
      else
        (let us = filter (\<lambda>t. \<not> cat_skipped t) ts
         in if us = [] then Inr \<lparr>shape = [0], data = []\<rparr>
            else if list_ex (\<lambda>t. shape t = [] \<or> length (shape t) \<noteq> length (shape (hd us))
                                  \<or> tl (shape t) \<noteq> tl (shape (hd us))) us
              then Inl RuntimeError
            else Inr \<lparr>shape = sum_list (map (\<lambda>t. hd (shape t)) us) # tl (shape (hd us)),
                      data = concat (map data us)\<rparr>))"

definition zeros :: "nat list \<Rightarrow> tensor" where
  "zeros s = \<lparr>shape = s, data = replicate (prod_list s) 0\<rparr>"

definition mask_view :: "mask_tensor \<Rightarrow> int list \<Rightarrow> py_error + mask_tensor" where
  "mask_view m dims =
     and_then (view_shape (prod_list (mshape m)) dims) (\<lambda>s. Inr (m\<lparr>mshape := s\<rparr>))"

text \<open>\<open>t[mask] = values\<close> on a tensor of zeros: the positions where the mask holds take
  the values in order; \<open>values\<close> has one entry per such position, or a single entry.\<close>

fun scatter :: "bool list \<Rightarrow> real list \<Rightarrow> real list" where
  "scatter [] vs = []"
| "scatter (True # ms) (v # vs) = v # scatter ms vs"
| "scatter (True # ms) [] = 0 # scatter ms []"
| "scatter (False # ms) vs = 0 # scatter ms vs"

definition masked_assign :: "nat list \<Rightarrow> mask_tensor \<Rightarrow> tensor \<Rightarrow> py_error + tensor" where
  "masked_assign s m values =
     (let k = length (filter (\<lambda>b. b) (mdata m))
      in if shape values = [k] then Inr \<lparr>shape = s, data = scatter (mdata m) (data values)\<rparr>
         else if shape values = [1]
           then Inr \<lparr>shape = s, data = scatter (mdata m) (replicate k (hd (data values)))\<rparr>
         else Inl RuntimeError)"

text \<open>Decimal digits of a number, for the captions \<open>f"pred_{i}"\<close>.\<close>

fun decimal :: "nat \<Rightarrow> string" where
  "decimal n =
     (if n < 10 then [char_of (48 + n)] else decimal (n div 10) @ [char_of (48 + n mod 10)])"

declare decimal.simps [simp del]

text \<open>\<open>[a[..i..], b[..i..], b[..i..] - a[..i..]]\<close> with the index in dimension \<open>k\<close>.\<close>

definition image_triple :: "nat \<Rightarrow> nat \<Rightarrow> tensor \<Rightarrow> tensor \<Rightarrow> py_error + tensor list" where
  "image_triple k i a b =
     and_then (select_dim k i a) (\<lambda>x.
     and_then (select_dim k i b) (\<lambda>y.
     and_then (broadcast_op (-) y x) (\<lambda>d. Inr [x, y, d])))"

text \<open>
  \<^verbatim>\<open>
  for i in np.random.randint(0,self.projection_shape[0],5):
      self.logger.log_image(key="val/projection", images=[preds[i], gt[i], (gt[i]-preds[i])],
                            caption=[f"pred_{i}", f"gt_{i}",f"residual_{i}"])
  \<close>
\<close>

fun log_projections :: "mlp \<Rightarrow> tensor \<Rightarrow> tensor \<Rightarrow> nat list \<Rightarrow> py_error option \<times> mlp" where
  "log_projections self preds gt [] = (None, self)"
| "log_projections self preds gt (i # rest) =
     (case image_triple 0 i preds gt of
        Inl e \<Rightarrow> (Some e, self)
      | Inr images \<Rightarrow>
          log_projections
            (self\<lparr>logged := logged self @
               [LogImage ''val/projection'' images
                  [''pred_'' @ decimal i, ''gt_'' @ decimal i, ''residual_'' @ decimal i]]\<rparr>)
            preds gt rest)"

text \<open>\<open>torch.linspace(-1, 1, n)\<close> and the grid
  \<open>torch.stack(torch.meshgrid(x, x, x, indexing='ij'), dim=-1)\<close> of shape \<open>[n, n, n, 3]\<close>.\<close>

definition linspace :: "nat \<Rightarrow> real list" where
  "linspace n =
     (if n = 1 then [- 1] else map (\<lambda>i. - 1 + 2 * real i / real (n - 1)) [0..<n])"

definition meshgrid3 :: "nat \<Rightarrow> tensor" where
  "meshgrid3 n =
     (let x = linspace n
      in \<lparr>shape = [n, n, n, 3],
          data = concat (map (\<lambda>a. concat (map (\<lambda>b. concat (map (\<lambda>c. [a, b, c]) x)) x)) x)\<rparr>)"

text \<open>\<open>outputs[:,i,:] = output\<close>, with \<open>output\<close> broadcast to the slice.\<close>

definition assign_dim1 :: "tensor \<Rightarrow> nat \<Rightarrow> tensor \<Rightarrow> py_error + tensor" where
  "assign_dim1 outputs i output =
     (case shape outputs of
        [d0, d1, d2] \<Rightarrow>
          if d1 \<le> i then Inl IndexError
          else if broadcast_shapes (shape output) [d0, d2] \<noteq> Some [d0, d2] then Inl RuntimeError
          else Inr (outputs\<lparr>data :=
                 concat (map2 (\<lambda>b v. take (i * d2) b @ v @ drop (Suc i * d2) b)
                           (blocks d0 (d1 * d2) (data outputs))
                           (blocks d0 d2 (expand output [d0, d2])))\<rparr>)
      | _ \<Rightarrow> Inl IndexError)"

text \<open>
  \<^verbatim>\<open>
  for i in range(mgrid.shape[1]):
      output = self.forward(mgrid[:,i,:].to(device=self.device))
      outputs[:,i,:] = output.cpu()
  \<close>
  \<open>forward\<close> is called with the coordinates alone.
\<close>

fun fill_outputs :: "mlp \<Rightarrow> tensor \<Rightarrow> tensor \<Rightarrow> nat list \<Rightarrow> py_error + tensor" where
  "fill_outputs self mgrid outputs [] = Inr outputs"
| "fill_outputs self mgrid outputs (i # rest) =
     (case select_dim 1 i mgrid of
        Inl e \<Rightarrow> Inl e
      | Inr pts \<Rightarrow>
          (case forward_one_argument self pts of
             Inl e \<Rightarrow> Inl e
           | Inr output \<Rightarrow>
               (case assign_dim1 outputs i output of
                  Inl e \<Rightarrow> Inl e
                | Inr outputs' \<Rightarrow> fill_outputs self mgrid outputs' rest)))"

definition clear_buffers :: "mlp \<Rightarrow> mlp" where
  "clear_buffers self = self\<lparr>validation_step_outputs := [], validation_step_gt := []\<rparr>"

text \<open>
  The imagefit branch:
  \<^verbatim>\<open>
  preds = all_preds.view(self.vol_shape)
  gt = all_gt.view(self.vol_shape)
  self.logger.log_image(key="val/reconstruction",
      images=[preds[self.vol_shape[2]//2,:,:], gt[self.vol_shape[2]//2,:,:]], caption=["pred", "gt"])
  psnr = self.psnr(preds.unsqueeze(dim=0).unsqueeze(dim=0),gt.unsqueeze(dim=0).unsqueeze(dim=0))
  self.log("val/reconstruction",psnr)
  \<close>
\<close>

definition epoch_end_imagefit ::
  "validation_env \<Rightarrow> mlp \<Rightarrow> tensor \<Rightarrow> tensor \<Rightarrow> py_error option \<times> mlp" where
  "epoch_end_imagefit env self all_preds all_gt =
     (let vs = shape (dataset_vol env)
      in or_raise (view all_preds (map int vs)) self (\<lambda>preds.
         or_raise (view all_gt (map int vs)) self (\<lambda>gt.
         if length vs < 3 then (Some IndexError, self)
         else
           or_raise (select_dim 0 (vs ! 2 div 2) preds) self (\<lambda>p.
           or_raise (select_dim 0 (vs ! 2 div 2) gt) self (\<lambda>g.
           (None, self\<lparr>logged := logged self @
                    [LogImage ''val/reconstruction'' [p, g] [''pred'', ''gt''],
                     LogValue ''val/reconstruction'' (psnr env preds gt)]\<rparr>))))))"

text \<open>
  The projection branch, first the projection images:
  \<^verbatim>\<open>
  valid_rays = self.trainer.val_dataloaders.dataset.valid_rays.view(self.projection_shape)
  preds = torch.zeros(self.projection_shape,dtype=all_preds.dtype)
  preds[valid_rays] = all_preds
  gt = torch.zeros(self.projection_shape,dtype=all_gt.dtype)
  gt[valid_rays] = all_gt
  for i in np.random.randint(0,self.projection_shape[0],5): ...
  \<close>
  then the dense reconstruction:
  \<^verbatim>\<open>
  vol = self.trainer.val_dataloaders.dataset.vol
  mgrid = torch.stack(torch.meshgrid(torch.linspace(-1, 1, vol.shape[0]), ...), dim=-1)
  mgrid = mgrid.view(-1,vol.shape[2],3)
  outputs = torch.zeros((*mgrid.shape[:2],1))
  with torch.no_grad():
      for i in range(mgrid.shape[1]): ...
      outputs = outputs.view(self.vol_shape)
  self.log("val/loss_reconstruction",self.loss_fn(outputs,vol))
  self.logger.log_image(key="val/reconstruction", images=[...nine slices...], caption=[...])
  \<close>
\<close>

definition epoch_end_reconstruction :: "validation_env \<Rightarrow> mlp \<Rightarrow> py_error option \<times> mlp" where
  "epoch_end_reconstruction env self =
     (let vol = dataset_vol env; vs = shape vol
      in if vs = [] then (Some IndexError, self)
         else if length vs < 3 then (Some IndexError, self)
         else
           or_raise (view (meshgrid3 (vs ! 0)) [- 1, int (vs ! 2), 3]) self (\<lambda>mgrid.
           or_raise (fill_outputs self mgrid (zeros [shape mgrid ! 0, shape mgrid ! 1, 1])
                       [0..<shape mgrid ! 1]) self (\<lambda>outputs.
           or_raise (view outputs (map int vs)) self (\<lambda>outputs.
           or_raise (mse_loss outputs vol) self (\<lambda>l.
           let self2 = self\<lparr>logged := logged self @ [LogValue ''val/loss_reconstruction'' l]\<rparr>;
               s = vs ! 2 div 2
           in or_raise (image_triple 0 s outputs vol) self2 (\<lambda>xy.
              or_raise (image_triple 1 s outputs vol) self2 (\<lambda>yz.
              or_raise (image_triple 2 s outputs vol) self2 (\<lambda>xz.
              (None, self2\<lparr>logged := logged self2 @
                 [LogImage ''val/reconstruction'' (xy @ yz @ xz)
                    [''pred_xy'', ''gt_xy'', ''residual_xy'',
                     ''pred_yz'', ''gt_yz'', ''residual_yz'',
                     ''pred_xz'', ''gt_xz'', ''residual_xz'']]\<rparr>)))))))))"

definition epoch_end_projection ::
  "validation_env \<Rightarrow> mlp \<Rightarrow> tensor \<Rightarrow> tensor \<Rightarrow> py_error option \<times> mlp" where
  "epoch_end_projection env self all_preds all_gt =
     (let ps = projection_shape self
      in or_raise (mask_view (dataset_valid_rays env) (map int ps)) self (\<lambda>valid_rays.
         or_raise (masked_assign ps valid_rays all_preds) self (\<lambda>preds.
         or_raise (masked_assign ps valid_rays all_gt) self (\<lambda>gt.
         if ps = [] then (Some IndexError, self)
         else if hd ps = 0 then (Some (ValueError ''high <= 0''), self)
         else
           (case log_projections self preds gt
                   (map (\<lambda>d. d mod hd ps) (take 5 (random_draws env))) of
              (Some e, self1) \<Rightarrow> (Some e, self1)
            | (None, self1) \<Rightarrow> epoch_end_reconstruction env self1)))))"

text \<open>
  \<^verbatim>\<open>
  def on_validation_epoch_end(self):
      all_preds = torch.cat(self.validation_step_outputs)
      all_gt = torch.cat(self.validation_step_gt)
      vol = self.trainer.val_dataloaders.dataset.vol.to(device=self.device)
      self.vol_shape = vol.shape
      if self.imagefit_mode:
          ...
      else:
          ...
      self.validation_step_outputs.clear()  # free memory
      self.validation_step_gt.clear()  # free memory
  \<close>
  An exception in either branch leaves the method before the two \<open>clear()\<close> calls.
\<close>

definition on_validation_epoch_end :: "validation_env \<Rightarrow> mlp \<Rightarrow> py_error option \<times> mlp" where
  "on_validation_epoch_end env self =
     or_raise (cat_dim0 (validation_step_outputs self)) self (\<lambda>all_preds.
     or_raise (cat_dim0 (validation_step_gt self)) self (\<lambda>all_gt.
     let self1 = self\<lparr>vol_shape := Some (shape (dataset_vol env))\<rparr>
     in (case (if imagefit_mode self1 then epoch_end_imagefit env self1 all_preds all_gt
               else epoch_end_projection env self1 all_preds all_gt) of
           (Some e, self2) \<Rightarrow> (Some e, self2)
         | (None, self2) \<Rightarrow> (None, clear_buffers self2))))"

subsection \<open>The arithmetic of 32-bit floats\<close>

text \<open>
  The tensors of the module are \<open>torch.float32\<close>. Two properties of the module depend on
  the rounding: whether the ray integral of a constant density is exactly
  \<open>c * length\<close>, and whether the sigmoid at the end of the network stays strictly inside
  the unit interval. For these the arithmetic is written out: IEEE 754 binary32 with
  round-to-nearest, ties-to-even, the subnormal numbers, overflow to an infinity, and
  not-a-number.

  A finite value is kept as the real number it stands for. The two zeros of the format
  are identified: the operations modelled here never divide by a computed value that can
  be a negative zero (the integrator divides by a count, the sigmoid by a number that is
  at least 1).
\<close>

datatype float32 = Finite real | PlusInf | MinusInf | NotANumber

text \<open>Rounding a real number to the nearest integer, a tie to the even one.\<close>

definition round_half_even :: "real \<Rightarrow> int" where
  "round_half_even y =
     (let f = \<lfloor>y\<rfloor>
      in if y - of_int f < 1 / 2 then f
         else if 1 / 2 < y - of_int f then f + 1
         else if even f then f else f + 1)"

text \<open>
  The exponent of the binade of \<open>x\<close>: the \<open>e\<close> with \<open>2^e \<le> |x| < 2^(e+1)\<close>, kept within
  \<open>-126 .. 127\<close> (below \<open>2^-126\<close> the numbers are subnormal and share the exponent \<open>-126\<close>).
  The floats of that binade are the multiples of \<open>2^(e-23)\<close>.
\<close>

function exponent_from :: "int \<Rightarrow> real \<Rightarrow> int" where
  "exponent_from e x =
     (if 127 \<le> e \<or> \<bar>x\<bar> < 2 powi (e + 1) then e else exponent_from (e + 1) x)"
  by auto
termination by (relation "measure (\<lambda>(e, x). nat (127 - e))") auto

declare exponent_from.simps [simp del]

definition exponent32 :: "real \<Rightarrow> int" where
  "exponent32 x = exponent_from (- 126) x"

definition round32 :: "real \<Rightarrow> float32" where
  "round32 x =
     (let q = 2 powi (exponent32 x - 23);
          y = of_int (round_half_even (x / q)) * q
      in if 2 ^ 128 \<le> \<bar>y\<bar> then (if 0 < x then PlusInf else MinusInf) else Finite y)"

text \<open>The operations on infinities and not-a-number, as the standard has them.\<close>

fun neg32 :: "float32 \<Rightarrow> float32" where
  "neg32 (Finite a) = Finite (- a)"
| "neg32 PlusInf = MinusInf"
| "neg32 MinusInf = PlusInf"
| "neg32 NotANumber = NotANumber"

fun add32 :: "float32 \<Rightarrow> float32 \<Rightarrow> float32" where
  "add32 (Finite a) (Finite b) = round32 (a + b)"
| "add32 NotANumber _ = NotANumber"
| "add32 _ NotANumber = NotANumber"
| "add32 PlusInf MinusInf = NotANumber"
| "add32 MinusInf PlusInf = NotANumber"
| "add32 PlusInf _ = PlusInf"
| "add32 _ PlusInf = PlusInf"
| "add32 MinusInf _ = MinusInf"
| "add32 _ MinusInf = MinusInf"

definition signed_inf :: "bool \<Rightarrow> float32" where
  "signed_inf positive = (if positive then PlusInf else MinusInf)"

fun mul32 :: "float32 \<Rightarrow> float32 \<Rightarrow> float32" where
  "mul32 (Finite a) (Finite b) = round32 (a * b)"
| "mul32 NotANumber _ = NotANumber"
| "mul32 _ NotANumber = NotANumber"
| "mul32 (Finite a) PlusInf = (if a = 0 then NotANumber else signed_inf (0 < a))"
| "mul32 (Finite a) MinusInf = (if a = 0 then NotANumber else signed_inf (a < 0))"
| "mul32 PlusInf (Finite b) = (if b = 0 then NotANumber else signed_inf (0 < b))"
| "mul32 MinusInf (Finite b) = (if b = 0 then NotANumber else signed_inf (b < 0))"
| "mul32 PlusInf PlusInf = PlusInf"
| "mul32 MinusInf MinusInf = PlusInf"
| "mul32 PlusInf MinusInf = MinusInf"
| "mul32 MinusInf PlusInf = MinusInf"

fun div32 :: "float32 \<Rightarrow> float32 \<Rightarrow> float32" where
  "div32 (Finite a) (Finite b) =
     (if b = 0 then (if a = 0 then NotANumber else signed_inf (0 < a))
      else round32 (a / b))"
| "div32 NotANumber _ = NotANumber"
| "div32 _ NotANumber = NotANumber"
| "div32 (Finite a) _ = Finite 0"
| "div32 PlusInf (Finite b) = signed_inf (0 \<le> b)"
| "div32 MinusInf (Finite b) = signed_inf (b < 0)"
| "div32 _ _ = NotANumber"

text \<open>
  \<open>torch.exp\<close> on one entry: the exponential, rounded. (The library function may differ
  from the correctly rounded value in the last bit. The statements below do not depend on
  that bit: they use that the result is not negative, and that at \<open>-20\<close> it is at most
  \<open>2^-24\<close>.)
\<close>

fun exp32 :: "float32 \<Rightarrow> float32" where
  "exp32 (Finite a) = round32 (exp a)"
| "exp32 PlusInf = PlusInf"
| "exp32 MinusInf = Finite 0"
| "exp32 NotANumber = NotANumber"

text \<open>A Python integer that meets a float tensor is converted to a float.\<close>

definition of_int32 :: "int \<Rightarrow> float32" where
  "of_int32 n = round32 (of_int n)"

text \<open>
  \<open>torch.sum\<close> along a dimension, accumulating from zero in the order of the entries. (The
  order of a reduction is not fixed by torch. The counterexample below adds three equal
  entries, and every order of adding them gives the same float.)
\<close>

definition sum32 :: "float32 list \<Rightarrow> float32" where
  "sum32 xs = foldl add32 (Finite 0) xs"

definition dot32 :: "float32 list \<Rightarrow> float32 list \<Rightarrow> float32" where
  "dot32 ws xs = sum32 (map2 mul32 ws xs)"

text \<open>
  \<open>torch.nn.Sigmoid\<close> on one entry, \<open>1 / (1 + exp(-x))\<close> with every operation rounded, and
  the last two modules of the network, \<open>torch.nn.Linear(num_hidden_features, 1)\<close> and
  \<open>torch.nn.Sigmoid()\<close>, on one row \<open>h\<close> of hidden features: the scalar that \<open>forward\<close>
  returns for that row (lemma \<open>build_mlp_last_modules\<close>), the dot product accumulated in the
  order of the features.
\<close>

definition sigmoid32 :: "float32 \<Rightarrow> float32" where
  "sigmoid32 x = div32 (Finite 1) (add32 (Finite 1) (exp32 (neg32 x)))"

definition output_unit32 :: "float32 list \<Rightarrow> float32 \<Rightarrow> float32 list \<Rightarrow> float32" where
  "output_unit32 w b h = sigmoid32 (add32 (dot32 w h) b)"

fun in_open_unit_interval :: "float32 \<Rightarrow> bool" where
  "in_open_unit_interval (Finite s) = (0 < s \<and> s < 1)"
| "in_open_unit_interval _ = False"

text \<open>
  The arithmetic of \<open>compute_projection_values\<close> on an attenuation tensor of shape
  \<open>[b, n]\<close>, given by its rows, and \<open>b\<close> lengths (the shapes for which the function returns,
  lemma \<open>compute_projection_values_rows\<close>):
  \<^verbatim>\<open>
  dx = lengths / (num_points)
  attenuation_sum = torch.sum(attenuation_values * dx[:,None], dim=1)
  \<close>
\<close>

definition compute_projection_values_float32 ::
  "int \<Rightarrow> float32 list list \<Rightarrow> float32 list \<Rightarrow> float32 list" where
  "compute_projection_values_float32 num_points attenuation_values lengths =
     map2 (\<lambda>row l. let dx = div32 l (of_int32 num_points) in sum32 (map (\<lambda>a. mul32 a dx) row))
       attenuation_values lengths"


subsection \<open>A small model for the examples\<close>

text \<open>Three inputs, one hidden feature, no hidden layers beyond the first, rectified-linear
  activation, every parameter zero.\<close>

definition example_first :: linear_layer where
  "example_first =
     \<lparr>weight = \<lparr>shape = [1, 3], data = [0, 0, 0]\<rparr>, bias = \<lparr>shape = [1], data = [0]\<rparr>\<rparr>"

definition example_final :: linear_layer where
  "example_final =
     \<lparr>weight = \<lparr>shape = [1, 1], data = [0]\<rparr>, bias = \<lparr>shape = [1], data = [0]\<rparr>\<rparr>"

definition example_mlp :: mlp where
  "example_mlp =
     \<lparr>projection_shape = [1, 1, 1], lr = 1 / 1000, imagefit_mode = False,
      l1_regularization_weight = 1 / 10, num_freq_bands = 0, num_hidden_layers = 0,
      num_hidden_features = 1, activation_function = ''relu'', latent_size = 0,
      encoder = None, lat_vecs = None,
      net = build_mlp ReLU example_first [] example_final,
      validation_step_outputs = [], validation_step_gt = [], vol_shape = None,
      logged = []\<rparr>"

definition example_args :: args where
  "example_args =
     \<lparr>training_learning_rate = 1 / 1000, training_imagefit_mode = False,
      training_regularization_weight = 1 / 10, training_device = ''cpu'',
      model_num_freq_bands = 0, model_num_hidden_layers = 1, model_num_hidden_features = 2,
      model_activation_function = ''sine'', model_latent_size = 0, model_encoder = None\<rparr>"


text \<open>A validation epoch of the small model: a volume of one voxel, one valid ray, and
  one batch in the buffers.\<close>

definition example_env :: validation_env where
  "example_env =
     \<lparr>dataset_vol = \<lparr>shape = [1, 1, 1], data = [1 / 2]\<rparr>,
      dataset_valid_rays = \<lparr>mshape = [1, 1, 1], mdata = [True]\<rparr>,
      random_draws = [0, 0, 0, 0, 0],
      psnr = (\<lambda>a b. Num 0)\<rparr>"

definition example_validating :: mlp where
  "example_validating =
     example_mlp\<lparr>validation_step_outputs := [\<lparr>shape = [1], data = [1 / 2]\<rparr>],
                 validation_step_gt := [\<lparr>shape = [1], data = [2 / 5]\<rparr>]\<rparr>"

text \<open>The small model in imagefit mode: one volume, latent vectors of size one, and a
  batch of one point.\<close>

definition example_first_imagefit :: linear_layer where
  "example_first_imagefit =
     \<lparr>weight = \<lparr>shape = [1, 4], data = [0, 0, 0, 0]\<rparr>, bias = \<lparr>shape = [1], data = [0]\<rparr>\<rparr>"

definition example_imagefit :: mlp where
  "example_imagefit =
     example_mlp\<lparr>imagefit_mode := True, latent_size := 1,
                 lat_vecs := Some \<lparr>shape = [1, 1], data = [0]\<rparr>,
                 net := build_mlp ReLU example_first_imagefit [] example_final\<rparr>"

definition example_imagefit_batch :: batch where
  "example_imagefit_batch =
     \<lparr>points = \<lparr>shape = [1, 1, 1, 3], data = [0, 0, 0]\<rparr>,
      target = \<lparr>shape = [1, 1, 1], data = [7 / 10]\<rparr>,
      idxs = \<lparr>ishape = [1], idata = [0]\<rparr>\<rparr>"

text \<open>A projection batch of one ray with two samples, from the origin to \<open>(1, 0, 0)\<close>,
  with an empty index tensor.\<close>

definition example_ray_batch :: batch where
  "example_ray_batch =
     \<lparr>points = \<lparr>shape = [1, 2, 3], data = [0, 0, 0, 1, 0, 0]\<rparr>,
      target = \<lparr>shape = [1], data = [0]\<rparr>,
      idxs = \<lparr>ishape = [2, 0], idata = []\<rparr>\<rparr>"


text \<open>The same ray as a loader collates it: with the index of its volume, one entry per
  ray.\<close>

definition example_indexed_batch :: batch where
  "example_indexed_batch = example_ray_batch\<lparr>idxs := \<lparr>ishape = [1], idata = [0]\<rparr>\<rparr>"
section \<open>Properties\<close>

subsection \<open>Blocks and broadcasting\<close>

lemma blocks_concat_rows:
  "list_all (\<lambda>r. length r = k) rows \<Longrightarrow> blocks (length rows) k (concat rows) = rows"
proof (induction rows)
  case Nil
  then show ?case by (simp add: blocks_def)
next
  case (Cons r rows)
  then have len: "length r = k" and rest: "blocks (length rows) k (concat rows) = rows"
    by simp_all
  have "blocks (Suc (length rows)) k (r @ concat rows)
        = take k (r @ concat rows) # map (\<lambda>i. take k (drop (Suc i * k) (r @ concat rows))) [0..<length rows]"
    unfolding blocks_def by (simp add: upt_conv_Cons map_Suc_upt [symmetric] del: upt_Suc)
  also have "\<dots> = r # map (\<lambda>i. take k (drop (i * k) (concat rows))) [0..<length rows]"
    using len by simp
  also have "\<dots> = r # rows"
    using rest by (simp add: blocks_def)
  finally show ?case by simp
qed

lemma length_blocks [simp]: "length (blocks n k xs) = n"
  by (simp add: blocks_def)

lemma blocks_lengths:
  "length xs = n * k \<Longrightarrow> list_all (\<lambda>r. length r = k) (blocks n k xs)"
proof -
  assume len: "length xs = n * k"
  have "length (take k (drop (i * k) xs)) = k" if "i < n" for i
  proof -
    have "Suc i * k \<le> n * k" using that by (intro mult_le_mono1) simp
    then have "k \<le> n * k - i * k" by simp
    then show ?thesis using len by simp
  qed
  then show ?thesis by (simp add: blocks_def list_all_iff)
qed

lemma concat_blocks:
  "length xs = n * k \<Longrightarrow> concat (blocks n k xs) = xs"
proof (induction n arbitrary: xs)
  case 0
  then show ?case by (simp add: blocks_def)
next
  case (Suc n)
  have "blocks (Suc n) k xs = take k xs # blocks n k (drop k xs)"
    unfolding blocks_def
    by (simp add: upt_conv_Cons map_Suc_upt [symmetric] add.commute del: upt_Suc)
  moreover have "length (drop k xs) = n * k" using Suc.prems by simp
  ultimately show ?case using Suc.IH [of "drop k xs"] by simp
qed


lemma expand_data_same:
  "length xs = prod_list s \<Longrightarrow> expand_data s s xs = xs"
proof (induction s arbitrary: xs)
  case Nil
  then show ?case by (simp add: expand_data.simps)
next
  case (Cons d s)
  have all: "list_all (\<lambda>r. length r = prod_list s) (blocks d (prod_list s) xs)"
    using Cons.prems by (intro blocks_lengths) simp
  have "map (expand_data s s) (blocks d (prod_list s) xs) = blocks d (prod_list s) xs"
    using all Cons.IH by (simp add: list_all_iff map_idI)
  then show ?case using Cons.prems by (simp add: concat_blocks expand_data.simps)
qed

lemma blocks_singletons:
  "length xs = n \<Longrightarrow> blocks n (Suc 0) xs = map (\<lambda>x. [x]) xs"
  by (auto simp: blocks_def list_eq_iff_nth_eq take_Suc_conv_app_nth)

lemma add_lists_singletons:
  "add_lists (map (\<lambda>x. [x]) xs) (Suc 0) = [sum_list xs]"
  by (induction xs) (simp_all add: add_lists_def)

lemma blocks_map2:
  "blocks n k (map2 f xs ys) = map2 (map2 f) (blocks n k xs) (blocks n k ys)"
  by (simp add: blocks_def list_eq_iff_nth_eq take_map drop_map take_zip drop_zip)

lemma expand_data_column:
  "length ds = b \<Longrightarrow> expand_data [b, Suc 0] [b, m] ds = concat (map (replicate m) ds)"
proof -
  assume len: "length ds = b"
  have one: "expand_data [Suc 0] [m] [d] = replicate m d" for d
    by (cases "m = Suc 0") (simp_all add: blocks_def expand_data.simps)
  show ?thesis using len
    by (subst expand_data.simps(1))
       (simp add: blocks_singletons one comp_def)
qed


lemma compute_projection_values_rows:
  assumes att: "shape att = [b, m]" "valid_tensor att"
    and len: "shape lengths = [b]" "valid_tensor lengths"
  shows "compute_projection_values n att lengths =
           Inr \<lparr>shape = [b],
                data = map2 (\<lambda>row l. sum_list row * (l / real_of_int n))
                         (rows_of att) (data lengths)\<rparr>"
proof -
  define ds where "ds = map (\<lambda>l. l / real_of_int n) (data lengths)"
  have lds: "length ds = b" using len by (simp add: ds_def valid_tensor_def)
  have latt: "length (data att) = b * m" using att by (simp add: valid_tensor_def)
  have bs: "broadcast_shapes [b, m] [b, Suc 0] = Some [b, m]"
    by (simp add: broadcast_shapes_def pad_shape_def)
  have ea: "expand att [b, m] = data att"
    using att latt by (simp add: expand_def pad_shape_def expand_data_same)
  have ed: "expand \<lparr>shape = [b, Suc 0], data = ds\<rparr> [b, m] = concat (map (replicate m) ds)"
    using lds by (simp add: expand_def pad_shape_def expand_data_column)
  have bd: "blocks b m (concat (map (replicate m) ds)) = map (replicate m) ds"
    using blocks_concat_rows [of m "map (replicate m) ds"] lds
    by (simp add: list_all_iff)
  have row: "map2 (*) r (replicate m d) = map (\<lambda>a. a * d) r" if "length r = m" for r d
    using that by (simp add: list_eq_iff_nth_eq)
  have rows: "list_all (\<lambda>r. length r = m) (blocks b m (data att))"
    using latt by (rule blocks_lengths)
  have prod: "blocks b m (map2 (*) (data att) (concat (map (replicate m) ds)))
              = map2 (\<lambda>r d. map (\<lambda>a. a * d) r) (blocks b m (data att)) ds"
    using rows lds
    by (simp add: blocks_map2 bd list_eq_iff_nth_eq list_all_length row)
  have sums: "map (\<lambda>r. add_lists (blocks m (Suc 0) r) (Suc 0)) rs = map (\<lambda>r. [sum_list r]) rs"
    if "list_all (\<lambda>r. length r = m) rs" for rs
    using that by (simp add: list_all_iff blocks_singletons add_lists_singletons)
  have rs2: "list_all (\<lambda>r. length r = m)
               (map2 (\<lambda>r d. map (\<lambda>a. a * d) r) (blocks b m (data att)) ds)"
    using rows by (auto simp: list_all_iff dest: set_zip_leftD)
  have "compute_projection_values n att lengths
        = Inr \<lparr>shape = [b],
               data = concat (map (\<lambda>r. add_lists (blocks m (Suc 0) r) (Suc 0))
                 (blocks b m (map2 (*) (data att) (concat (map (replicate m) ds)))))\<rparr>"
    using att len bs ea ed
    by (simp add: compute_projection_values_def and_then_def unsqueeze1_def
        broadcast_op_def sum_dim1_def ds_def [symmetric])
  also have "\<dots> = Inr \<lparr>shape = [b],
               data = concat (map (\<lambda>r. [sum_list r])
                 (map2 (\<lambda>r d. map (\<lambda>a. a * d) r) (blocks b m (data att)) ds))\<rparr>"
    unfolding prod sums [OF rs2] ..
  also have "concat (map (\<lambda>r. [sum_list r])
                 (map2 (\<lambda>r d. map (\<lambda>a. a * d) r) (blocks b m (data att)) ds))
             = map2 (\<lambda>row l. sum_list row * (l / real_of_int n)) (rows_of att) (data lengths)"
  proof -
    have c1: "concat (map (\<lambda>x. [f x]) xs) = map f xs" for f :: "(real list \<times> real) \<Rightarrow> real" and xs
      by (induction xs) simp_all
    have r: "rows_of att = blocks b m (data att)"
      using att by (simp add: rows_of_def)
    have s: "(\<Sum>a\<leftarrow>xs. a * c / d) = sum_list xs * c / d" for xs :: "real list" and c d
      by (induction xs) (simp_all add: add_divide_distrib distrib_right)
    show ?thesis
      unfolding r ds_def
      by (simp add: comp_def case_prod_beta c1 s zip_map2)
  qed
  finally show ?thesis .
qed

subsection \<open>The ray integrator\<close>

lemma rows_of_constant:
  "rows_of \<lparr>shape = [b, n], data = replicate (b * n) c\<rparr> = replicate b (replicate n c)"
proof -
  have "concat (replicate b (replicate n c)) = replicate (b * n) c"
    by (induction b) (simp_all add: replicate_add)
  then show ?thesis
    using blocks_concat_rows [of n "replicate b (replicate n c)"]
    by (simp add: rows_of_def list_all_iff)
qed

text \<open>
  Claim C9. The integrator never compares \<open>num_points\<close> with the number of samples in
  \<open>attenuation_values\<close>: for every \<open>n \<ge> 1\<close> and every density tensor of shape \<open>[b, m]\<close>
  (with a length per ray) it returns, for each ray, the sum of its \<open>m\<close> values times
  \<open>length / n\<close>, and raises nothing. For \<open>m \<ge> 1\<close> this is the quadrature with the actual
  sample count, \<open>num_points = m\<close>, scaled by \<open>m / n\<close>.
\<close>

theorem compute_projection_values_no_count_check:
  assumes "1 \<le> n"
    and "shape att = [b, m]" and "valid_tensor att"
    and "shape lengths = [b]" and "valid_tensor lengths"
  shows "compute_projection_values n att lengths =
           Inr \<lparr>shape = [b],
                data = map2 (\<lambda>row l. sum_list row * (l / real_of_int n))
                         (rows_of att) (data lengths)\<rparr>
         \<and> (1 \<le> m \<longrightarrow>
              (\<exists>y. compute_projection_values (int m) att lengths = Inr y
                 \<and> compute_projection_values n att lengths =
                     Inr (scale_tensor (real m / real_of_int n) y)))"
proof -
  let ?r = "\<lambda>k. \<lparr>shape = [b],
                   data = map2 (\<lambda>row l. sum_list row * (l / real_of_int k))
                            (rows_of att) (data lengths)\<rparr>"
  have eq: "compute_projection_values k att lengths = Inr (?r k)" for k
    using assms(2-5) by (rule compute_projection_values_rows)
  have "scale_tensor (real m / real_of_int n) (?r (int m)) = ?r n" if "1 \<le> m"
    using that assms(1) by (simp add: scale_tensor_def comp_def case_prod_beta)
  then show ?thesis using eq by auto
qed

theorem compute_projection_values_no_count_check_witness:
  "compute_projection_values 1 \<lparr>shape = [1, 2], data = [3, 4]\<rparr> \<lparr>shape = [1], data = [5]\<rparr>
     = Inr \<lparr>shape = [1], data = [35]\<rparr>
   \<and> compute_projection_values 2 \<lparr>shape = [1, 2], data = [3, 4]\<rparr> \<lparr>shape = [1], data = [5]\<rparr>
     = Inr \<lparr>shape = [1], data = [35 / 2]\<rparr>"
proof -
  have one: "(1::int) \<le> 1" and two: "(1::int) \<le> 2" by simp_all
  note inst = compute_projection_values_no_count_check
    [of _ "\<lparr>shape = [1, 2], data = [3, 4]\<rparr>" 1 2 "\<lparr>shape = [1], data = [5]\<rparr>",
      THEN conjunct1]
  show ?thesis
    using inst [OF one] inst [OF two]
    by (simp add: valid_tensor_def rows_of_def blocks_def upt_conv_Cons)
qed

text \<open>
  In exact arithmetic the quadrature of a constant density is exact: for every \<open>n \<ge> 1\<close>,
  every ray length and a constant \<open>c\<close> at each of the \<open>n\<close> samples, the result is
  \<open>n\<close> times \<open>c * (length / n)\<close>, that is \<open>c * length\<close>. (With the rounding of 32-bit floats
  this holds only approximately, section on the ray integrator in 32-bit floats.)
\<close>

lemma compute_projection_values_constant:
  assumes "1 \<le> n" and "shape lengths = [b]" and "valid_tensor lengths"
  shows "compute_projection_values (int n) \<lparr>shape = [b, n], data = replicate (b * n) c\<rparr> lengths
           = Inr \<lparr>shape = [b], data = map (\<lambda>l. c * l) (data lengths)\<rparr>"
proof -
  have len: "length (data lengths) = b"
    using assms(2,3) by (simp add: valid_tensor_def)
  have "compute_projection_values (int n) \<lparr>shape = [b, n], data = replicate (b * n) c\<rparr> lengths
        = Inr \<lparr>shape = [b],
               data = map2 (\<lambda>row l. sum_list row * (l / real_of_int (int n)))
                        (replicate b (replicate n c)) (data lengths)\<rparr>"
    using compute_projection_values_rows
      [of "\<lparr>shape = [b, n], data = replicate (b * n) c\<rparr>" b n lengths "int n"] assms(2,3)
    by (simp add: valid_tensor_def rows_of_constant)
  moreover have "map2 (\<lambda>row l. sum_list row * (l / real_of_int (int n)))
                   (replicate b (replicate n c)) (data lengths)
                 = map (\<lambda>l. c * l) (data lengths)"
    using len assms(1) by (simp add: list_eq_iff_nth_eq sum_list_replicate)
  ultimately show ?thesis by simp
qed

lemma compute_projection_values_constant_example:
  "compute_projection_values 4 \<lparr>shape = [1, 4], data = [1, 1, 1, 1]\<rparr> \<lparr>shape = [1], data = [4]\<rparr>
     = Inr \<lparr>shape = [1], data = [4]\<rparr>"
proof -
  have four: "1 \<le> (4::nat)" by simp
  show ?thesis
    using compute_projection_values_constant
      [OF four, of "\<lparr>shape = [1], data = [4]\<rparr>" 1 1]
    by (simp add: valid_tensor_def numeral_eq_Suc)
qed

subsection \<open>The activation catalogue\<close>

text \<open>
  Claim C6. Each of the seven supported names (\<open>none\<close> for the identity, \<open>relu\<close>,
  \<open>leaky_relu\<close>, \<open>sigmoid\<close>, \<open>tanh\<close>, \<open>elu\<close>, \<open>sine\<close>) yields its transform, the sine
  transform being \<open>sin (30 * x)\<close>; every other name raises the error for an unsupported
  activation, Python's \<open>ValueError\<close>, whose message ends with the offending name.
\<close>

theorem get_activation_function_catalogue:
  "get_activation_function ''none'' a = Inr Identity
   \<and> get_activation_function ''relu'' a = Inr ReLU
   \<and> get_activation_function ''leaky_relu'' a = Inr LeakyReLU
   \<and> get_activation_function ''sigmoid'' a = Inr Sigmoid
   \<and> get_activation_function ''tanh'' a = Inr Tanh
   \<and> get_activation_function ''elu'' a = Inr ELU
   \<and> get_activation_function ''sine'' a = Inr Sine
   \<and> activation_fn Sine x = sin (30 * x)
   \<and> (name \<notin> set [''none'', ''relu'', ''leaky_relu'', ''sigmoid'', ''tanh'', ''elu'', ''sine'']
        \<longrightarrow> get_activation_function name a
              = Inl (ValueError (''Unknown activation function: '' @ name)))"
  by (simp add: get_activation_function_def)

theorem get_activation_function_catalogue_witness:
  "get_activation_function ''gelu'' example_args
     = Inl (ValueError ''Unknown activation function: gelu'')
   \<and> get_activation_function ''sine'' example_args = Inr Sine
   \<and> activation_fn Sine 0 = 0"
  using get_activation_function_catalogue [of example_args 0 "''gelu''"]
  by simp

subsection \<open>The forward pass\<close>

lemma view_data: "view t dims = Inr t' \<Longrightarrow> data t' = data t"
  by (auto simp: view_def and_then_def split: sum.splits)

lemma modules_forward_append:
  "modules_forward (ms @ ns) x =
     (case modules_forward ms x of Inl e \<Rightarrow> Inl e | Inr y \<Rightarrow> modules_forward ns y)"
  by (induction ms arbitrary: x) (simp_all split: sum.splits)

lemma sigmoid_bounds: "0 < activation_fn Sigmoid x \<and> activation_fn Sigmoid x < 1"
proof -
  have "0 < exp (- x)" by simp
  then show ?thesis by (simp add: add_pos_pos)
qed

text \<open>The network ends with the final linear layer and the sigmoid: what it returns is the
  sigmoid, entry by entry, of what the final layer returns.\<close>

lemma build_mlp_last_modules:
  assumes "module_forward (build_mlp act first hidden final) x = Inr out"
  shows "\<exists>y z. linear_forward final y = Inr z
               \<and> out = z\<lparr>data := map (activation_fn Sigmoid) (data z)\<rparr>"
proof -
  let ?front = "[Linear first, Activation act]
                @ map (\<lambda>l. Sequential [Linear l, Activation act]) hidden"
  have "modules_forward (?front @ [Linear final, Activation Sigmoid]) x = Inr out"
    using assms by (simp add: build_mlp_def)
  then obtain y where "modules_forward [Linear final, Activation Sigmoid] y = Inr out"
    unfolding modules_forward_append [of ?front] by (auto split: sum.splits)
  then show ?thesis by (auto split: sum.splits)
qed

lemma build_mlp_output:
  assumes "module_forward (build_mlp act first hidden final) x = Inr out"
  shows "list_all (\<lambda>y. 0 < y \<and> y < 1) (data out)"
proof -
  let ?front = "[Linear first, Activation act]
                @ map (\<lambda>l. Sequential [Linear l, Activation act]) hidden"
  have "modules_forward (?front @ [Linear final, Activation Sigmoid]) x = Inr out"
    using assms by (simp add: build_mlp_def)
  then obtain y where "modules_forward [Linear final, Activation Sigmoid] y = Inr out"
    unfolding modules_forward_append [of ?front] by (auto split: sum.splits)
  then obtain z where "out = z\<lparr>data := map (activation_fn Sigmoid) (data z)\<rparr>"
    by (auto split: sum.splits)
  then have "data out = map (activation_fn Sigmoid) (data z)" by simp
  then show ?thesis
    using sigmoid_bounds by (simp add: list_all_iff del: activation_fn.simps)
qed

lemma example_forward:
  "forward example_mlp \<lparr>shape = [1, 3], data = [0, 0, 0]\<rparr> (Some \<lparr>shape = [1, 0], data = []\<rparr>)
     = Inr \<lparr>shape = [1, 1], data = [1 / 2]\<rparr>"
proof -
  have l1: "linear_forward example_first \<lparr>shape = [Suc 0, 3], data = [0, 0, 0]\<rparr>
              = Inr \<lparr>shape = [Suc 0, Suc 0], data = [0]\<rparr>"
    by (simp add: linear_forward_def example_first_def blocks_def)
  have l2: "linear_forward example_final \<lparr>shape = [Suc 0, Suc 0], data = [0]\<rparr>
              = Inr \<lparr>shape = [Suc 0, Suc 0], data = [0]\<rparr>"
    by (simp add: linear_forward_def example_final_def blocks_def)
  have m: "module_forward (build_mlp ReLU example_first [] example_final)
             \<lparr>shape = [Suc 0, 3], data = [0, 0, 0]\<rparr>
           = Inr \<lparr>shape = [Suc 0, Suc 0], data = [1 / 2]\<rparr>"
    by (simp add: build_mlp_def l1 l2)
  have c: "cat_dim1 (Some \<lparr>shape = [Suc 0, 0], data = []\<rparr>)
             \<lparr>shape = [Suc 0, 3], data = [0, 0, 0]\<rparr>
           = Inr \<lparr>shape = [Suc 0, 3], data = [0, 0, 0]\<rparr>"
    by (simp add: cat_dim1_def cat_skipped_def blocks_def)
  show ?thesis
    by (simp add: forward_def example_mlp_def and_then_def c m)
qed

text \<open>
  Every scalar that \<open>forward\<close> returns is the sigmoid of a pre-activation of the final
  layer: the last module of the network that \<open>__init__\<close> assembles is the logistic
  sigmoid, and the final reshape keeps the entries. In exact arithmetic such a value lies
  strictly between 0 and 1. (In 32-bit floats the sigmoid reaches both ends, section on
  the sigmoid in 32-bit floats.)
\<close>

lemma forward_output_in_unit_interval:
  assumes "net self = build_mlp act first hidden final"
    and "forward self pts vecs = Inr out"
  shows "list_all (\<lambda>y. 0 < y \<and> y < 1) (data out)"
proof -
  from assms(2) obtain x y where y: "module_forward (net self) x = Inr y"
    and out: "out = y \<or> (\<exists>dims. view y dims = Inr out)"
    by (auto simp: forward_def and_then_def Let_def split: sum.splits if_splits)
  have "list_all (\<lambda>v. 0 < v \<and> v < 1) (data y)"
    using y assms(1) build_mlp_output by simp
  moreover have "data out = data y"
    using out view_data by auto
  ultimately show ?thesis by simp
qed

lemma forward_output_in_unit_interval_example:
  "forward example_mlp \<lparr>shape = [1, 3], data = [0, 0, 0]\<rparr> (Some \<lparr>shape = [1, 0], data = []\<rparr>)
     = Inr \<lparr>shape = [1, 1], data = [1 / 2]\<rparr>
   \<and> list_all (\<lambda>y. 0 < y \<and> y < 1) (data \<lparr>shape = [1, 1], data = [1 / 2 :: real]\<rparr>)"
proof -
  have n: "net example_mlp = build_mlp ReLU example_first [] example_final"
    by (simp add: example_mlp_def)
  show ?thesis
    using forward_output_in_unit_interval [OF n example_forward] example_forward
    by simp
qed

text \<open>
  Claim C1 (the code departs from it). \<open>forward\<close> concatenates its latent argument with the
  coordinates unconditionally, so with no latent vector (\<open>None\<close>) it never returns: it
  raises, a TypeError at \<open>torch.cat\<close> when the steps before succeed. Here for every model
  and every input, and for a \<open>[2, 3]\<close> batch of raw coordinates on the model without
  encoder.
\<close>

theorem forward_without_latent_raises:
  "(\<exists>e. forward self pts None = Inl e)
   \<and> forward example_mlp \<lparr>shape = [2, 3], data = [0, 0, 0, 1, 1, 1]\<rparr> None = Inl TypeError"
proof -
  have "\<exists>e. forward self pts None = Inl e"
    by (auto simp: forward_def and_then_def Let_def cat_dim1_def split: sum.splits option.splits)
  moreover have "forward example_mlp \<lparr>shape = [2, 3], data = [0, 0, 0, 1, 1, 1]\<rparr> None
                 = Inl TypeError"
    by (simp add: forward_def and_then_def example_mlp_def cat_dim1_def)
  ultimately show ?thesis by simp
qed

subsection \<open>Sine initialisation: what it leaves alone\<close>

lemma init_weight_frame:
  "without_weights (fst (snd (init_weight bound g m))) = without_weights m"
  by (cases m)
     (auto simp: init_weight_def tensor_uniform_def uniform_fill_def Let_def
           split: sum.splits prod.splits)

lemma module_apply_frame:
  "(\<And>g m. without_weights (fst (snd (fn g m))) = without_weights m)
     \<Longrightarrow> without_weights (fst (snd (module_apply fn g m))) = without_weights m"
  "(\<And>g m. without_weights (fst (snd (fn g m))) = without_weights m)
     \<Longrightarrow> without_weights_list (fst (snd (modules_apply fn g ms))) = without_weights_list ms"
proof (induction fn g m and fn g ms rule: module_apply_modules_apply.induct)
  case (1 fn g l)
  then show ?case by simp
next
  case (2 fn g a)
  then show ?case by simp
next
  case (3 fn g ms)
  obtain r ms' g' where ap: "modules_apply fn g ms = (r, ms', g')"
    by (cases "modules_apply fn g ms") auto
  with 3 have "without_weights_list ms' = without_weights_list ms" by simp
  moreover have "without_weights (fst (snd (fn g' (Sequential ms'))))
                 = Sequential (without_weights_list ms')"
    using "3.prems" [of g' "Sequential ms'"] by simp
  ultimately show ?case using ap by (cases r) simp_all
next
  case (4 fn g)
  then show ?case by simp
next
  case (5 fn g m ms)
  obtain r m' g' where ap: "module_apply fn g m = (r, m', g')"
    by (cases "module_apply fn g m") auto
  with 5 have m: "without_weights m' = without_weights m" by simp
  show ?case
  proof (cases r)
    case None
    obtain r2 ms' g2 where ap2: "modules_apply fn g' ms = (r2, ms', g2)"
      by (cases "modules_apply fn g' ms") auto
    have "without_weights_list (fst (snd (modules_apply fn g' ms))) = without_weights_list ms"
      using "5.IH"(2) [OF ap [symmetric] None refl] "5.prems" by simp
    then show ?thesis using ap ap2 None m by simp
  next
    case (Some e)
    then show ?thesis using ap m by simp
  qed
qed

lemma bias_without_weights:
  "map bias (linears (without_weights m)) = map bias (linears m)"
  "map bias (linears_list (without_weights_list ms)) = map bias (linears_list ms)"
  by (induction m and ms rule: linears_linears_list.induct) simp_all

lemma same_biases:
  "without_weights m' = without_weights m \<Longrightarrow> map bias (linears m') = map bias (linears m)"
  using bias_without_weights(1) [of m] bias_without_weights(1) [of m'] by simp

lemma sine_apply_frame:
  "without_weights (fst (snd (module_apply sine_init g m))) = without_weights m"
  unfolding sine_init_def by (rule module_apply_frame(1)) (rule init_weight_frame)

lemma first_layer_apply_frame:
  "without_weights (fst (snd (module_apply first_layer_sine_init g m))) = without_weights m"
  unfolding first_layer_sine_init_def by (rule module_apply_frame(1)) (rule init_weight_frame)

text \<open>
  Claim C10. Both sine initialisers, applied to one module or through \<open>apply\<close> to a module
  and all its children, change nothing but the weights of linear layers: the module with
  its weights blanked out is the same before and after (also when the traversal ends in
  an exception), and so is every bias vector.
\<close>

theorem sine_init_keeps_biases:
  "without_weights (fst (snd (sine_init g m))) = without_weights m
   \<and> without_weights (fst (snd (first_layer_sine_init g m))) = without_weights m
   \<and> without_weights (fst (snd (module_apply sine_init g m))) = without_weights m
   \<and> without_weights (fst (snd (module_apply first_layer_sine_init g m))) = without_weights m
   \<and> map bias (linears (fst (snd (module_apply sine_init g m)))) = map bias (linears m)
   \<and> map bias (linears (fst (snd (module_apply first_layer_sine_init g m))))
       = map bias (linears m)"
  using sine_apply_frame [of g m] first_layer_apply_frame [of g m]
    same_biases [OF sine_apply_frame, of g m] same_biases [OF first_layer_apply_frame, of g m]
  by (simp add: sine_init_def first_layer_sine_init_def init_weight_frame)

subsection \<open>Sine initialisation: the range of the weights\<close>

lemma uniform_fill_draws [simp]:
  "uniform_draws (snd (uniform_fill g t lo hi)) = uniform_draws g"
  "shape (fst (uniform_fill g t lo hi)) = shape t"
  by (simp_all add: uniform_fill_def)

lemma normal_fill_draws [simp]:
  "uniform_draws (snd (normal_fill g t mu sigma)) = uniform_draws g"
  by (simp add: normal_fill_def)

lemma unit_draws_cong: "uniform_draws g' = uniform_draws g \<Longrightarrow> unit_draws g' = unit_draws g"
  by (simp add: unit_draws_def)








lemma shapes_without_weights:
  "map (\<lambda>l. shape (weight l)) (linears (without_weights m))
     = map (\<lambda>l. shape (weight l)) (linears m)"
  "map (\<lambda>l. shape (weight l)) (linears_list (without_weights_list ms))
     = map (\<lambda>l. shape (weight l)) (linears_list ms)"
  by (induction m and ms rule: linears_linears_list.induct) simp_all

lemma same_shapes:
  assumes "without_weights m' = without_weights m"
  shows "map (\<lambda>l. shape (weight l)) (linears m') = map (\<lambda>l. shape (weight l)) (linears m)"
  using shapes_without_weights(1) [of m] shapes_without_weights(1) [of m'] assms by simp















subsection \<open>The end of a validation epoch\<close>

lemma view_middle_dimension:
  assumes "view t [- 1, int s, 3] = Inr m"
  shows "shape m ! 1 = s \<and> 0 < s"
proof -
  have "s \<noteq> 0 \<and> shape m = [prod_list (shape t) div (s * 3), s, 3]"
    using assms
    by (auto simp: view_def view_shape_def and_then_def Let_def split: if_splits)
  then show ?thesis by simp
qed

lemma fill_outputs_raises:
  "steps \<noteq> [] \<Longrightarrow> \<exists>e. fill_outputs self mgrid outputs steps = Inl e"
  by (cases steps) (auto simp: forward_one_argument_def split: sum.splits)

lemma log_projections_buffers:
  "validation_step_outputs (snd (log_projections self preds gt steps))
     = validation_step_outputs self
   \<and> validation_step_gt (snd (log_projections self preds gt steps)) = validation_step_gt self"
  by (induction steps arbitrary: self) (auto split: sum.splits)

lemma epoch_end_reconstruction_raises:
  "fst (epoch_end_reconstruction env self) \<noteq> None
   \<and> snd (epoch_end_reconstruction env self) = self"
proof (cases "shape (dataset_vol env) = [] \<or> length (shape (dataset_vol env)) < 3")
  case True
  then show ?thesis by (auto simp: epoch_end_reconstruction_def Let_def)
next
  case False
  let ?vs = "shape (dataset_vol env)"
  show ?thesis
  proof (cases "view (meshgrid3 (?vs ! 0)) [- 1, int (?vs ! 2), 3]")
    case (Inl e)
    then show ?thesis using False
      by (simp add: epoch_end_reconstruction_def Let_def or_raise_def)
  next
    case (Inr mgrid)
    then have "[0..<shape mgrid ! 1] \<noteq> []"
      using view_middle_dimension by simp
    then obtain e where "fill_outputs self mgrid (zeros [shape mgrid ! 0, shape mgrid ! 1, 1])
                           [0..<shape mgrid ! 1] = Inl e"
      using fill_outputs_raises by blast
    then show ?thesis using False Inr
      by (simp add: epoch_end_reconstruction_def Let_def or_raise_def)
  qed
qed

lemma epoch_end_projection_raises:
  "fst (epoch_end_projection env self all_preds all_gt) \<noteq> None
   \<and> validation_step_outputs (snd (epoch_end_projection env self all_preds all_gt))
       = validation_step_outputs self
   \<and> validation_step_gt (snd (epoch_end_projection env self all_preds all_gt))
       = validation_step_gt self"
proof -
  have "fst r \<noteq> None \<and> validation_step_outputs (snd r) = validation_step_outputs self
          \<and> validation_step_gt (snd r) = validation_step_gt self"
    if "r = (case log_projections self preds gt steps of
               (Some e, self1) \<Rightarrow> (Some e, self1)
             | (None, self1) \<Rightarrow> epoch_end_reconstruction env self1)" for r preds gt steps
  proof -
    obtain res self1 where lp: "log_projections self preds gt steps = (res, self1)"
      by (cases "log_projections self preds gt steps") auto
    have "validation_step_outputs self1 = validation_step_outputs self"
      "validation_step_gt self1 = validation_step_gt self"
      using log_projections_buffers [of self preds gt steps] lp by simp_all
    then show ?thesis
      using that lp epoch_end_reconstruction_raises [of env self1] by (cases res) auto
  qed
  then show ?thesis
    unfolding epoch_end_projection_def Let_def or_raise_def
    by (auto split: sum.splits)
qed

text \<open>
  Claim C3 (the code departs from it). In projection mode the step never returns: every
  run ends in an exception before the two \<open>clear()\<close> calls, a TypeError at
  \<open>self.forward(mgrid[:,i,:])\<close> when the steps before succeed, and both buffers are
  left as they were.
\<close>

theorem on_validation_epoch_end_projection_raises:
  assumes "\<not> imagefit_mode self"
  shows "fst (on_validation_epoch_end env self) \<noteq> None
         \<and> validation_step_outputs (snd (on_validation_epoch_end env self))
             = validation_step_outputs self
         \<and> validation_step_gt (snd (on_validation_epoch_end env self))
             = validation_step_gt self"
proof (cases "cat_dim0 (validation_step_outputs self)")
  case (Inl e)
  then show ?thesis by (simp add: on_validation_epoch_end_def or_raise_def)
next
  case preds: (Inr all_preds)
  show ?thesis
  proof (cases "cat_dim0 (validation_step_gt self)")
    case (Inl e)
    then show ?thesis using preds by (simp add: on_validation_epoch_end_def or_raise_def)
  next
    case (Inr all_gt)
    let ?self1 = "self\<lparr>vol_shape := Some (shape (dataset_vol env))\<rparr>"
    obtain res self2 where ep: "epoch_end_projection env ?self1 all_preds all_gt = (res, self2)"
      by (cases "epoch_end_projection env ?self1 all_preds all_gt") auto
    then obtain e where res: "res = Some e"
      and buf: "validation_step_outputs self2 = validation_step_outputs self"
               "validation_step_gt self2 = validation_step_gt self"
      using epoch_end_projection_raises [of env ?self1 all_preds all_gt] by auto
    show ?thesis
      using assms preds Inr ep res buf
      by (simp add: on_validation_epoch_end_def or_raise_def Let_def)
  qed
qed

lemma example_cat_dim0: "cat_dim0 [\<lparr>shape = [1], data = [x]\<rparr>] = Inr \<lparr>shape = [1], data = [x]\<rparr>"
  by (simp add: cat_dim0_def cat_skipped_def)

lemma example_mask_view: "mask_view \<lparr>mshape = [1, 1, 1], mdata = [True]\<rparr> (map int [1, 1, 1]) = Inr \<lparr>mshape = [1, 1, 1], mdata = [True]\<rparr>"
  by (simp add: mask_view_def view_shape_def and_then_def)

lemma example_masked_assign: "masked_assign [1, 1, 1] \<lparr>mshape = [1, 1, 1], mdata = [True]\<rparr> \<lparr>shape = [1], data = [x]\<rparr> = Inr \<lparr>shape = [1, 1, 1], data = [x]\<rparr>"
  by (simp add: masked_assign_def)

lemma example_image_triple: "image_triple 0 0 \<lparr>shape = [1, 1, 1], data = [x]\<rparr> \<lparr>shape = [1, 1, 1], data = [y]\<rparr>
   = Inr [\<lparr>shape = [1, 1], data = [x]\<rparr>, \<lparr>shape = [1, 1], data = [y]\<rparr>, \<lparr>shape = [1, 1], data = [y - x]\<rparr>]"
  by (simp add: image_triple_def select_dim_def and_then_def blocks_def broadcast_op_def
      broadcast_shapes_def pad_shape_def expand_def expand_data.simps)

lemma example_log_projections: "fst (log_projections s \<lparr>shape = [1, 1, 1], data = [x]\<rparr> \<lparr>shape = [1, 1, 1], data = [y]\<rparr> [0, 0, 0, 0, 0]) = None"
  using example_image_triple [of x y] by simp

lemma example_reconstruction_raises: "fst (epoch_end_reconstruction example_env s) = Some TypeError"
proof -
  have v: "view (meshgrid3 1) [- 1, 1, 3] = Inr \<lparr>shape = [1, 1, 3], data = [- 1, - 1, - 1]\<rparr>"
    by (simp add: view_def view_shape_def and_then_def meshgrid3_def linspace_def)
  have f: "fill_outputs s \<lparr>shape = [1, 1, 3], data = [- 1, - 1, - 1]\<rparr> z [0..<1] = Inl TypeError" for z
    by (simp add: select_dim_def forward_one_argument_def blocks_def)
  show ?thesis
    using v f
    by (simp add: epoch_end_reconstruction_def example_env_def or_raise_def)
qed

lemma example_epoch_end: "fst (on_validation_epoch_end example_env example_validating) = Some TypeError"
proof -
  obtain r s1 where l: "log_projections (example_validating\<lparr>vol_shape := Some [1, 1, 1]\<rparr>)
     \<lparr>shape = [1, 1, 1], data = [1 / 2]\<rparr> \<lparr>shape = [1, 1, 1], data = [2 / 5]\<rparr> [0, 0, 0, 0, 0] = (r, s1)"
    by (cases "log_projections (example_validating\<lparr>vol_shape := Some [1, 1, 1]\<rparr>)
     \<lparr>shape = [1, 1, 1], data = [1 / 2]\<rparr> \<lparr>shape = [1, 1, 1], data = [2 / 5]\<rparr> [0, 0, 0, 0, 0]") auto
  then have r: "r = None" using example_log_projections [of "example_validating\<lparr>vol_shape := Some [1, 1, 1]\<rparr>" "1/2" "2/5"] by simp
  have ps: "projection_shape example_validating = [1, 1, 1]" "\<not> imagefit_mode example_validating"
    "validation_step_outputs example_validating = [\<lparr>shape = [1], data = [1 / 2]\<rparr>]"
    "validation_step_gt example_validating = [\<lparr>shape = [1], data = [2 / 5]\<rparr>]"
    by (simp_all add: example_validating_def example_mlp_def)
  have env: "dataset_vol example_env = \<lparr>shape = [1, 1, 1], data = [1 / 2]\<rparr>"
    "dataset_valid_rays example_env = \<lparr>mshape = [1, 1, 1], mdata = [True]\<rparr>"
    "random_draws example_env = [0, 0, 0, 0, 0]"
    by (simp_all add: example_env_def)
  show ?thesis
    using l r example_reconstruction_raises [of s1] example_cat_dim0 [of "1/2"]
      example_cat_dim0 [of "2/5"] example_mask_view example_masked_assign [of "1/2"]
      example_masked_assign [of "2/5"]
    by (auto simp add: on_validation_epoch_end_def epoch_end_projection_def or_raise_def ps env
        simp del: log_projections.simps split: prod.splits option.splits)
qed


theorem on_validation_epoch_end_projection_raises_witness:
  "fst (on_validation_epoch_end example_env example_validating) = Some TypeError
   \<and> validation_step_outputs (snd (on_validation_epoch_end example_env example_validating))
       = [\<lparr>shape = [1], data = [1 / 2]\<rparr>]
   \<and> validation_step_gt (snd (on_validation_epoch_end example_env example_validating))
       = [\<lparr>shape = [1], data = [2 / 5]\<rparr>]"
proof -
  have "\<not> imagefit_mode example_validating"
    by (simp add: example_validating_def example_mlp_def)
  from on_validation_epoch_end_projection_raises [OF this, of example_env] example_epoch_end
  show ?thesis
    by (simp add: example_validating_def)
qed

text \<open>When the step does return, which only the imagefit branch can, both buffers are
  empty.\<close>

lemma on_validation_epoch_end_clears:
  assumes "fst (on_validation_epoch_end env self) = None"
  shows "validation_step_outputs (snd (on_validation_epoch_end env self)) = []
         \<and> validation_step_gt (snd (on_validation_epoch_end env self)) = []"
  using assms
  by (auto simp: on_validation_epoch_end_def or_raise_def Let_def clear_buffers_def
        split: sum.splits prod.splits option.splits if_splits)

subsection \<open>The validation step in imagefit mode\<close>

lemma example_imagefit_forward:
  "forward example_imagefit \<lparr>shape = [1, 1, 1, 3], data = [0, 0, 0]\<rparr>
     (Some \<lparr>shape = [1, 1], data = [0]\<rparr>) = Inr \<lparr>shape = [1, 1, 1, 1], data = [1 / 2]\<rparr>"
proof -
  have v: "view \<lparr>shape = [Suc 0, Suc 0, Suc 0, 3], data = [0, 0, 0]\<rparr> [- 1, 3]
             = Inr \<lparr>shape = [Suc 0, 3], data = [0, 0, 0]\<rparr>"
    by (simp add: view_def view_shape_def and_then_def)
  have c: "cat_dim1 (Some \<lparr>shape = [Suc 0, Suc 0], data = [0]\<rparr>)
             \<lparr>shape = [Suc 0, 3], data = [0, 0, 0]\<rparr>
           = Inr \<lparr>shape = [Suc 0, 4], data = [0, 0, 0, 0]\<rparr>"
    by (simp add: cat_dim1_def cat_skipped_def blocks_def)
  have l1: "linear_forward example_first_imagefit \<lparr>shape = [Suc 0, 4], data = [0, 0, 0, 0]\<rparr>
              = Inr \<lparr>shape = [Suc 0, Suc 0], data = [0]\<rparr>"
    by (simp add: linear_forward_def example_first_imagefit_def blocks_def)
  have l2: "linear_forward example_final \<lparr>shape = [Suc 0, Suc 0], data = [0]\<rparr>
              = Inr \<lparr>shape = [Suc 0, Suc 0], data = [0]\<rparr>"
    by (simp add: linear_forward_def example_final_def blocks_def)
  have m: "module_forward (build_mlp ReLU example_first_imagefit [] example_final)
             \<lparr>shape = [Suc 0, 4], data = [0, 0, 0, 0]\<rparr>
           = Inr \<lparr>shape = [Suc 0, Suc 0], data = [1 / 2]\<rparr>"
    by (simp add: build_mlp_def l1 l2)
  have w: "view \<lparr>shape = [Suc 0, Suc 0], data = [1 / 2]\<rparr> [1, 1, 1, - 1]
             = Inr \<lparr>shape = [Suc 0, Suc 0, Suc 0, Suc 0], data = [1 / 2]\<rparr>"
    by (simp add: view_def view_shape_def and_then_def)
  show ?thesis
    by (simp add: forward_def example_imagefit_def example_mlp_def and_then_def v c m w)
qed

lemma example_imagefit_attenuation:
  "imagefit_attenuation example_imagefit example_imagefit_batch
     = Inr \<lparr>shape = [1, 1, 1], data = [1 / 2]\<rparr>"
proof -
  have e: "embedding \<lparr>shape = [Suc 0, Suc 0], data = [0]\<rparr> \<lparr>ishape = [Suc 0], idata = [0]\<rparr>
             = Inr \<lparr>shape = [Suc 0, Suc 0], data = [0]\<rparr>"
    by (simp add: embedding_def)
  have r: "repeat4 \<lparr>shape = [Suc 0, Suc 0], data = [0]\<rparr> [Suc 0, Suc 0, Suc 0, Suc 0]
             = Inr \<lparr>shape = [Suc 0, Suc 0, Suc 0, Suc 0], data = [0]\<rparr>"
    by (simp add: repeat4_def pad_shape_def blocks_def numeral_eq_Suc)
  have v: "view \<lparr>shape = [Suc 0, Suc 0, Suc 0, Suc 0], data = [0]\<rparr> [- 1, 1]
             = Inr \<lparr>shape = [Suc 0, Suc 0], data = [0]\<rparr>"
    by (simp add: view_def view_shape_def and_then_def)
  have w: "view \<lparr>shape = [Suc 0, Suc 0, Suc 0, Suc 0], data = [1 / 2]\<rparr> [1, 1, 1]
             = Inr \<lparr>shape = [Suc 0, Suc 0, Suc 0], data = [1 / 2]\<rparr>"
    by (simp add: view_def view_shape_def and_then_def)
  have ls: "lat_vecs example_imagefit = Some \<lparr>shape = [1, 1], data = [0]\<rparr>"
    "latent_size example_imagefit = 1"
    by (simp_all add: example_imagefit_def)
  show ?thesis
    using example_imagefit_forward e r v w
    by (simp add: imagefit_attenuation_def example_imagefit_batch_def and_then_def ls)
qed

lemma example_mse:
  "mse_loss \<lparr>shape = [1, 1, 1], data = [1 / 2]\<rparr> \<lparr>shape = [1, 1, 1], data = [7 / 10]\<rparr>
     = Inr (Num (1 / 25))"
  by (simp add: mse_loss_def broadcast_op_def broadcast_shapes_def pad_shape_def expand_def
      expand_data.simps blocks_def and_then_def mean_def)


lemma validation_step_imagefit:
  assumes "imagefit_mode self"
    and "imagefit_attenuation self b = Inr attenuation_values"
    and "mse_loss attenuation_values (target b) = Inr loss"
  shows "validation_step self b =
           (Some (UnboundLocalError ''total_loss''),
            self\<lparr>validation_step_outputs := validation_step_outputs self @ [attenuation_values],
                 validation_step_gt := validation_step_gt self @ [target b]\<rparr>)"
  using assms
  by (simp add: validation_step_def or_raise_def log_validation_def local_variable_def)

text \<open>
  Claim C2 (the code departs from it). In imagefit mode no validation step completes: it
  ends in an exception and logs nothing. When the forward pass and the loss succeed, the
  predictions and the target are appended to the buffers and the step then raises
  UnboundLocalError for \<open>total_loss\<close>, which only the projection branch binds, while
  building the dictionary for \<open>log_dict\<close>.
\<close>

theorem validation_step_imagefit_raises:
  assumes "imagefit_mode self"
  shows "fst (validation_step self b) \<noteq> None
         \<and> logged (snd (validation_step self b)) = logged self"
  using assms
  by (auto simp: validation_step_def or_raise_def log_validation_def local_variable_def Let_def
        split: sum.splits)

theorem validation_step_imagefit_raises_witness:
  "validation_step example_imagefit example_imagefit_batch =
     (Some (UnboundLocalError ''total_loss''),
      example_imagefit\<lparr>validation_step_outputs := [\<lparr>shape = [1, 1, 1], data = [1 / 2]\<rparr>],
                        validation_step_gt := [\<lparr>shape = [1, 1, 1], data = [7 / 10]\<rparr>]\<rparr>)
   \<and> logged (snd (validation_step example_imagefit example_imagefit_batch)) = []"
proof -
  have mode: "imagefit_mode example_imagefit"
    by (simp add: example_imagefit_def)
  have t: "target example_imagefit_batch = \<lparr>shape = [1, 1, 1], data = [7 / 10]\<rparr>"
    by (simp add: example_imagefit_batch_def)
  have "validation_step example_imagefit example_imagefit_batch =
     (Some (UnboundLocalError ''total_loss''),
      example_imagefit\<lparr>validation_step_outputs :=
                          validation_step_outputs example_imagefit
                          @ [\<lparr>shape = [1, 1, 1], data = [1 / 2]\<rparr>],
                        validation_step_gt :=
                          validation_step_gt example_imagefit @ [target example_imagefit_batch]\<rparr>)"
    using example_mse
    by (intro validation_step_imagefit [OF mode example_imagefit_attenuation]) (simp add: t)
  moreover have "validation_step_outputs example_imagefit = []"
    "validation_step_gt example_imagefit = []" "logged example_imagefit = []"
    by (simp_all add: example_imagefit_def example_mlp_def)
  ultimately show ?thesis
    using validation_step_imagefit_raises [OF mode, of example_imagefit_batch]
    by (simp add: t)
qed

subsection \<open>The training step in projection mode\<close>

lemma length_concat_constant:
  "list_all (\<lambda>x. length (f x) = k) xs \<Longrightarrow> length (concat (map f xs)) = length xs * k"
  by (induction xs) simp_all

lemma view_shape_prod:
  assumes "view_shape n dims = Inr s"
  shows "prod_list s = n"
proof -
  have gen: "list_all (\<lambda>d. - 1 \<le> d) ds \<Longrightarrow>
             prod_list (map (\<lambda>d. if d = - 1 then k else nat d) ds)
               = k ^ length (filter (\<lambda>d. d = - 1) ds)
                 * prod_list (map nat (filter (\<lambda>d. d \<noteq> - 1) ds))" for ds :: "int list" and k
    by (induction ds) simp_all
  have ge: "list_all (\<lambda>d. - 1 \<le> d) dims"
    using assms by (auto simp: view_shape_def list_all_iff list_ex_iff split: if_splits)
  show ?thesis
  proof (cases "list_ex (\<lambda>d. d = - 1) dims")
    case False
    then show ?thesis
      using assms by (auto simp: view_shape_def split: if_splits)
  next
    case True
    then have "length (filter (\<lambda>d. d = - 1) dims) \<noteq> 0"
      by (auto simp: list_ex_iff filter_empty_conv)
    moreover have "\<not> 1 < length (filter (\<lambda>d. d = - 1) dims)"
      using assms by (auto simp: view_shape_def split: if_splits)
    ultimately have one: "length (filter (\<lambda>d. d = - 1) dims) = 1" by linarith
    let ?p = "prod_list (map nat (filter (\<lambda>d. d \<noteq> - 1) dims))"
    from assms True have s: "s = map (\<lambda>d. if d = - 1 then n div ?p else nat d) dims"
      and dv: "n mod ?p = 0"
      by (auto simp: view_shape_def Let_def split: if_splits)
    show ?thesis
      unfolding s gen [OF ge] one using dv by auto
  qed
qed

lemma view_valid:
  "view t dims = Inr t' \<Longrightarrow> valid_tensor t \<Longrightarrow> valid_tensor t'"
  by (auto simp: view_def and_then_def valid_tensor_def view_shape_prod split: sum.splits)

lemma view_shape_exact:
  "view t [int a, int b] = Inr t' \<Longrightarrow> shape t' = [a, b]"
  by (auto simp: view_def and_then_def view_shape_def split: sum.splits if_splits)

lemma linear_forward_valid:
  assumes "linear_forward l x = Inr y" and "valid_linear l"
  shows "valid_tensor y"
proof -
  from assms(2) obtain n_out n_in where w: "shape (weight l) = [n_out, n_in]"
    and b: "length (data (bias l)) = n_out"
    by (cases "shape (weight l)" rule: list.exhaust; cases "tl (shape (weight l))")
       (auto simp: valid_linear_def valid_tensor_def)
  let ?rows = "blocks (prod_list (butlast (shape x))) n_in (data x)"
  let ?f = "\<lambda>row. map2 (\<lambda>w b. sum_list (map2 (*) w row) + b)
                     (blocks n_out n_in (data (weight l))) (data (bias l))"
  from assms(1) w have y: "y = \<lparr>shape = butlast (shape x) @ [n_out],
                                 data = concat (map ?f ?rows)\<rparr>"
    by (auto simp: linear_forward_def split: if_splits)
  have "length (concat (map ?f ?rows)) = length ?rows * n_out"
    by (rule length_concat_constant) (simp add: list_all_iff b)
  then show ?thesis
    by (simp add: y valid_tensor_def)
qed

lemma build_mlp_valid:
  assumes "module_forward (build_mlp act first hidden final) x = Inr out"
    and "valid_linear final"
  shows "valid_tensor out"
proof -
  let ?front = "[Linear first, Activation act]
                @ map (\<lambda>l. Sequential [Linear l, Activation act]) hidden"
  have "modules_forward (?front @ [Linear final, Activation Sigmoid]) x = Inr out"
    using assms(1) by (simp add: build_mlp_def)
  then obtain y where "modules_forward [Linear final, Activation Sigmoid] y = Inr out"
    unfolding modules_forward_append [of ?front] by (auto split: sum.splits)
  then obtain z where z: "linear_forward final y = Inr z"
    and out: "out = z\<lparr>data := map (activation_fn Sigmoid) (data z)\<rparr>"
    by (auto split: sum.splits)
  from linear_forward_valid [OF z assms(2)] show ?thesis
    by (simp add: out valid_tensor_def)
qed

lemma forward_valid:
  assumes "net self = build_mlp act first hidden final" and "valid_linear final"
    and "forward self pts vecs = Inr out"
  shows "valid_tensor out"
proof -
  from assms(3) obtain x y where y: "module_forward (net self) x = Inr y"
    and out: "out = y \<or> (\<exists>dims. view y dims = Inr out)"
    by (auto simp: forward_def and_then_def Let_def split: sum.splits if_splits)
  have "valid_tensor y"
    using y assms(1,2) build_mlp_valid by simp
  then show ?thesis
    using out view_valid by auto
qed

lemma sum_dim1_rows:
  assumes "shape t = [n, m]" and "valid_tensor t"
  shows "sum_dim1 t = Inr \<lparr>shape = [n], data = map sum_list (blocks n m (data t))\<rparr>"
proof -
  have rows: "list_all (\<lambda>r. length r = m) (blocks n m (data t))"
    using assms by (intro blocks_lengths) (simp add: valid_tensor_def)
  have eq1: "map (\<lambda>r. add_lists (blocks m (Suc 0) r) (Suc 0)) (blocks n m (data t))
          = map (\<lambda>r. [sum_list r]) (blocks n m (data t))"
    using rows by (simp add: list_all_iff blocks_singletons add_lists_singletons)
  have eq2: "concat (map (\<lambda>r. [sum_list r]) rs) = map sum_list rs" for rs :: "real list list"
    by (induction rs) simp_all
  have "sum_dim1 t = Inr \<lparr>shape = [n],
          data = concat (map (\<lambda>r. add_lists (blocks m (Suc 0) r) (Suc 0))
                           (blocks n m (data t)))\<rparr>"
    using assms(1) by (simp add: sum_dim1_def)
  then show ?thesis unfolding eq1 eq2 .
qed

lemma broadcast_dims_same: "broadcast_dims s s = Some s"
  by (induction s) simp_all

lemma broadcast_op_same:
  assumes "shape a = shape b" and "valid_tensor a" and "valid_tensor b"
  shows "broadcast_op f a b = Inr \<lparr>shape = shape a, data = map2 f (data a) (data b)\<rparr>"
  using assms
  by (simp add: broadcast_op_def broadcast_shapes_def pad_shape_def broadcast_dims_same
      expand_def expand_data_same valid_tensor_def)

lemma select_dim1_valid:
  assumes "shape t = [n, r, k]" and "valid_tensor t" and "i < r"
  shows "\<exists>u. select_dim 1 i t = Inr u \<and> shape u = [n, k] \<and> valid_tensor u"
proof -
  have rows: "list_all (\<lambda>b. length b = r * k) (blocks n (r * k) (data t))"
    using assms by (intro blocks_lengths) (simp add: valid_tensor_def)
  have len: "length (take k (drop (i * k) b)) = k" if "length b = r * k" for b :: "real list"
  proof -
    have "Suc i * k \<le> r * k" using assms(3) by (intro mult_le_mono1) simp
    then show ?thesis using that by simp
  qed
  have "list_all (\<lambda>b. length (take k (drop (i * k) b)) = k) (blocks n (r * k) (data t))"
    unfolding list_all_iff
  proof
    fix b assume "b \<in> set (blocks n (r * k) (data t))"
    then have "length b = r * k" using rows by (simp add: list_all_iff)
    then show "length (take k (drop (i * k) b)) = k" by (rule len)
  qed
  from length_concat_constant [OF this]
  have "length (concat (map (\<lambda>b. take k (drop (i * k) b)) (blocks n (r * k) (data t)))) = n * k"
    by simp
  then show ?thesis
    using assms(1,3) by (simp add: select_dim_def valid_tensor_def)
qed

lemma ray_lengths_valid:
  assumes "shape pts = [n, r, 3]" and "valid_tensor pts" and "ray_lengths pts = Inr lengths"
  shows "shape lengths = [n] \<and> valid_tensor lengths"
proof -
  from assms(1,3) have r: "0 < r"
    by (auto simp: ray_lengths_def split: if_splits)
  obtain a where a: "select_dim 1 (r - 1) pts = Inr a" "shape a = [n, 3]" "valid_tensor a"
    using select_dim1_valid [OF assms(1,2), of "r - 1"] r by auto
  obtain b where b: "select_dim 1 0 pts = Inr b" "shape b = [n, 3]" "valid_tensor b"
    using select_dim1_valid [OF assms(1,2), of 0] r by auto
  let ?d = "\<lparr>shape = [n, 3], data = map (\<lambda>x. x * x) (map2 (-) (data a) (data b))\<rparr>"
  have d: "broadcast_op (-) a b = Inr \<lparr>shape = [n, 3], data = map2 (-) (data a) (data b)\<rparr>"
    using broadcast_op_same [of a b "(-)"] a b by simp
  have la: "length (data a) = n * 3" and lb: "length (data b) = n * 3"
    using a(2,3) b(2,3) by (simp_all add: valid_tensor_def)
  have vd: "valid_tensor ?d"
    by (simp add: valid_tensor_def la lb)
  have "sum_dim1 ?d = Inr \<lparr>shape = [n], data = map sum_list (blocks n 3 (data ?d))\<rparr>"
    by (rule sum_dim1_rows [OF _ vd]) simp
  then have "ray_lengths pts
             = Inr \<lparr>shape = [n], data = map sqrt (map sum_list (blocks n 3 (data ?d)))\<rparr>"
    using assms(1) r a(1) b(1) d
    by (simp add: ray_lengths_def and_then_def norm_dim1_def)
  with assms(3) show ?thesis
    by (auto simp: valid_tensor_def)
qed

lemma map2_concat:
  "list_all2 (\<lambda>a b. length a = length b) xs ys
     \<Longrightarrow> map2 f (concat xs) (concat ys) = concat (map2 (map2 f) xs ys)"
  by (induction xs ys rule: list_all2_induct) simp_all

lemma adjacent_pairs:
  "map2 f (drop 1 ray) (take (length ray - 1) ray)
     = map (\<lambda>i. f (ray ! (i + 1)) (ray ! i)) [0..<length ray - 1]"
  by (auto simp: list_eq_iff_nth_eq)

lemma smoothness_rows:
  assumes "shape att = [n, r]" and "valid_tensor att"
  shows "smoothness att = Inr (mean_abs_adjacent (rows_of att))"
proof -
  let ?rows = "blocks n r (data att)"
  have rows: "list_all (\<lambda>b. length b = r) ?rows"
    using assms by (intro blocks_lengths) (simp add: valid_tensor_def)
  let ?a = "\<lparr>shape = [n, r - 1], data = concat (map (drop 1) ?rows)\<rparr>"
  let ?b = "\<lparr>shape = [n, r - 1], data = concat (map (take (r - 1)) ?rows)\<rparr>"
  have da: "drop_first_dim1 att = Inr ?a" and db: "drop_last_dim1 att = Inr ?b"
    using assms(1) by (simp_all add: drop_first_dim1_def drop_last_dim1_def)
  have la: "length (concat (map (drop 1) ?rows)) = n * (r - 1)"
    using length_concat_constant [of "drop 1" "r - 1" ?rows] rows by (simp add: list_all_iff)
  have lb: "length (concat (map (take (r - 1)) ?rows)) = n * (r - 1)"
    using length_concat_constant [of "take (r - 1)" "r - 1" ?rows] rows
    by (simp add: list_all_iff)
  have "broadcast_op (\<lambda>x y. \<bar>x - y\<bar>) ?a ?b
          = Inr \<lparr>shape = [n, r - 1],
                 data = map2 (\<lambda>x y. \<bar>x - y\<bar>) (concat (map (drop 1) ?rows))
                          (concat (map (take (r - 1)) ?rows))\<rparr>"
    using broadcast_op_same [of ?a ?b] la lb by (simp add: valid_tensor_def)
  moreover have "map2 (\<lambda>x y. \<bar>x - y\<bar>) (concat (map (drop 1) ?rows))
                   (concat (map (take (r - 1)) ?rows))
                 = concat (map (\<lambda>ray. map (\<lambda>i. \<bar>ray ! (i + 1) - ray ! i\<bar>) [0..<length ray - 1])
                             ?rows)"
  proof -
    have "list_all2 (\<lambda>a b. length a = length b) (map (drop 1) ?rows) (map (take (r - 1)) ?rows)"
      using rows by (simp add: list_all2_conv_all_nth list_all_length)
    from map2_concat [OF this]
    have "map2 (\<lambda>x y. \<bar>x - y\<bar>) (concat (map (drop 1) ?rows)) (concat (map (take (r - 1)) ?rows))
            = concat (map (\<lambda>ray. map2 (\<lambda>x y. \<bar>x - y\<bar>) (drop 1 ray) (take (r - 1) ray)) ?rows)"
      by (simp add: zip_map_map comp_def map_zip_map map_zip_map2 zip_same_conv_map)
    also have "\<dots> = concat (map (\<lambda>ray. map (\<lambda>i. \<bar>ray ! (i + 1) - ray ! i\<bar>)
                                        [0..<length ray - 1]) ?rows)"
    proof -
      have "map2 (\<lambda>x y. \<bar>x - y\<bar>) (drop 1 ray) (take (r - 1) ray)
              = map (\<lambda>i. \<bar>ray ! (i + 1) - ray ! i\<bar>) [0..<length ray - 1]"
        if "ray \<in> set ?rows" for ray
        using that rows adjacent_pairs [of "\<lambda>x y. \<bar>x - y\<bar>" ray] by (simp add: list_all_iff)
      then show ?thesis by (simp cong: map_cong)
    qed
    finally show ?thesis .
  qed
  ultimately show ?thesis
    using assms(1) da db
    by (simp add: smoothness_def and_then_def l1_loss_def mean_abs_adjacent_def rows_of_def)
qed

lemma mse_loss_same:
  assumes "shape a = shape b" and "valid_tensor a" and "valid_tensor b"
  shows "mse_loss a b = Inr (mean_squared_error (data a) (data b))"
  using broadcast_op_same [OF assms, of "\<lambda>x y. (x - y) * (x - y)"]
  by (simp add: mse_loss_def and_then_def mean_squared_error_def power2_eq_square)

lemma example_ray_lengths:
  "ray_lengths \<lparr>shape = [1, 2, 3], data = [0, 0, 0, 1, 0, 0]\<rparr> = Inr \<lparr>shape = [1], data = [1]\<rparr>"
proof -
  have a: "select_dim (Suc 0) (Suc 0) \<lparr>shape = [Suc 0, 2, 3], data = [0, 0, 0, 1, 0, 0]\<rparr>
             = Inr \<lparr>shape = [Suc 0, 3], data = [1, 0, 0]\<rparr>"
    by (simp add: select_dim_def blocks_def)
  have b: "select_dim (Suc 0) 0 \<lparr>shape = [Suc 0, 2, 3], data = [0, 0, 0, 1, 0, 0]\<rparr>
             = Inr \<lparr>shape = [Suc 0, 3], data = [0, 0, 0]\<rparr>"
    by (simp add: select_dim_def blocks_def)
  have d: "broadcast_op (-) \<lparr>shape = [Suc 0, 3], data = [1, 0, 0]\<rparr>
             \<lparr>shape = [Suc 0, 3], data = [0, 0, 0]\<rparr> = Inr \<lparr>shape = [Suc 0, 3], data = [1, 0, 0]\<rparr>"
    using broadcast_op_same [of "\<lparr>shape = [Suc 0, 3], data = [1, 0, 0]\<rparr>"
        "\<lparr>shape = [Suc 0, 3], data = [0, 0, 0]\<rparr>" "(-)"]
    by (simp add: valid_tensor_def)
  have n: "norm_dim1 \<lparr>shape = [Suc 0, 3], data = [1, 0, 0]\<rparr> = Inr \<lparr>shape = [Suc 0], data = [1]\<rparr>"
    using sum_dim1_rows [of "\<lparr>shape = [Suc 0, 3], data = [1, 0, 0]\<rparr>" "Suc 0" 3]
    by (simp add: norm_dim1_def and_then_def valid_tensor_def blocks_def)
  show ?thesis
    by (simp add: ray_lengths_def and_then_def a b d n)
qed

lemma example_projection_attenuation:
  "projection_attenuation example_mlp example_ray_batch
     = Inr \<lparr>shape = [1, 2], data = [1 / 2, 1 / 2]\<rparr>"
proof -
  have v: "view \<lparr>shape = [Suc 0, 2, 3], data = [0, 0, 0, 1, 0, 0]\<rparr> [- 1, 3]
             = Inr \<lparr>shape = [2, 3], data = [0, 0, 0, 1, 0, 0]\<rparr>"
    by (simp add: view_def view_shape_def and_then_def)
  have c: "cat_dim1 (Some \<lparr>shape = [2, 0], data = []\<rparr>)
             \<lparr>shape = [2, 3], data = [0, 0, 0, 1, 0, 0]\<rparr>
           = Inr \<lparr>shape = [2, 3], data = [0, 0, 0, 1, 0, 0]\<rparr>"
    by (simp add: cat_dim1_def cat_skipped_def blocks_def upt_conv_Cons)
  have l1: "linear_forward example_first \<lparr>shape = [2, 3], data = [0, 0, 0, 1, 0, 0]\<rparr>
              = Inr \<lparr>shape = [2, Suc 0], data = [0, 0]\<rparr>"
    by (simp add: linear_forward_def example_first_def blocks_def upt_conv_Cons)
  have l2: "linear_forward example_final \<lparr>shape = [2, Suc 0], data = [0, 0]\<rparr>
              = Inr \<lparr>shape = [2, Suc 0], data = [0, 0]\<rparr>"
    by (simp add: linear_forward_def example_final_def blocks_def upt_conv_Cons)
  have m: "module_forward (build_mlp ReLU example_first [] example_final)
             \<lparr>shape = [2, 3], data = [0, 0, 0, 1, 0, 0]\<rparr>
           = Inr \<lparr>shape = [2, Suc 0], data = [1 / 2, 1 / 2]\<rparr>"
    by (simp add: build_mlp_def l1 l2)
  have w: "view \<lparr>shape = [2, Suc 0], data = [1 / 2, 1 / 2]\<rparr> [1, 2, - 1]
             = Inr \<lparr>shape = [Suc 0, 2, Suc 0], data = [1 / 2, 1 / 2]\<rparr>"
    by (simp add: view_def view_shape_def and_then_def)
  have f: "forward example_mlp \<lparr>shape = [Suc 0, 2, 3], data = [0, 0, 0, 1, 0, 0]\<rparr>
             (Some \<lparr>shape = [2, 0], data = []\<rparr>)
           = Inr \<lparr>shape = [Suc 0, 2, Suc 0], data = [1 / 2, 1 / 2]\<rparr>"
    by (simp add: forward_def example_mlp_def and_then_def v c m w)
  have x: "view \<lparr>shape = [Suc 0, 2, Suc 0], data = [1 / 2, 1 / 2]\<rparr> [1, 2]
             = Inr \<lparr>shape = [Suc 0, 2], data = [1 / 2, 1 / 2]\<rparr>"
    by (simp add: view_def view_shape_def and_then_def)
  show ?thesis
    by (simp add: projection_attenuation_def example_ray_batch_def to_float_def and_then_def f x)
qed


lemma example_training_step:
  "training_step example_mlp example_ray_batch =
     Inr (Num (1 / 4),
          example_mlp\<lparr>logged := [LogDict [(''train/loss'', Num (1 / 4)),
                                           (''train/loss_total'', Num (1 / 4)),
                                           (''train/l1_regularization'', Num 0)]]\<rparr>)"
proof -
  let ?att = "\<lparr>shape = [1, 2], data = [1 / 2, 1 / 2 :: real]\<rparr>"
  have rows: "rows_of ?att = [[1 / 2, 1 / 2]]"
    by (simp add: rows_of_def blocks_def)
  have rows': "rows_of \<lparr>shape = [Suc 0, 2], data = [1 / 2, 1 / 2 :: real]\<rparr> = [[1 / 2, 1 / 2]]"
    using rows by simp
  have det: "compute_projection_values 2 ?att \<lparr>shape = [1], data = [1]\<rparr>
               = Inr \<lparr>shape = [1], data = [1 / 2]\<rparr>"
    using compute_projection_values_rows [of ?att 1 2 "\<lparr>shape = [1], data = [1]\<rparr>" 2]
    by (simp add: valid_tensor_def rows')
  have sm: "smoothness ?att = Inr (Num 0)"
    using smoothness_rows [of ?att 1 2]
    by (simp add: valid_tensor_def rows' mean_abs_adjacent_def mean_def)
  have mse: "mse_loss \<lparr>shape = [1], data = [1 / 2]\<rparr> \<lparr>shape = [1], data = [0]\<rparr> = Inr (Num (1 / 4))"
    using mse_loss_same [of "\<lparr>shape = [1], data = [1 / 2]\<rparr>" "\<lparr>shape = [1], data = [0]\<rparr>"]
    by (simp add: valid_tensor_def mean_squared_error_def mean_def power2_eq_square)
  have b: "points example_ray_batch = \<lparr>shape = [1, 2, 3], data = [0, 0, 0, 1, 0, 0]\<rparr>"
    "target example_ray_batch = \<lparr>shape = [1], data = [0]\<rparr>"
    by (simp_all add: example_ray_batch_def)
  have m: "\<not> imagefit_mode example_mlp" "logged example_mlp = []"
    "l1_regularization_weight example_mlp = 1 / 10"
    by (simp_all add: example_mlp_def)
  show ?thesis
    using example_ray_lengths example_projection_attenuation det sm mse
    by (simp add: training_step_def and_then_def Let_def b m)
qed

text \<open>
  What the projection branch computes when it returns: on \<open>n\<close> rays with \<open>r\<close> samples each
  and one target per ray, the returned value is the mean squared error between the
  integrated detector values and the target, plus the regularisation weight times the
  mean absolute difference of adjacent density samples along each ray. (The example above
  is such a run; its index tensor is empty.)
\<close>

lemma training_step_projection_loss:
  assumes "\<not> imagefit_mode self"
    and "net self = build_mlp act first hidden final" and "valid_linear final"
    and "shape (points b) = [n, r, 3]" and "valid_tensor (points b)"
    and "shape (target b) = [n]" and "valid_tensor (target b)"
    and "training_step self b = Inr (total_loss, self')"
  shows "\<exists>lengths att det.
           ray_lengths (points b) = Inr lengths
           \<and> projection_attenuation self b = Inr att \<and> shape att = [n, r]
           \<and> compute_projection_values (int r) att lengths = Inr det
           \<and> data det = map2 (\<lambda>ray l. sum_list ray * (l / real r)) (rows_of att) (data lengths)
           \<and> total_loss
               = scalar_add (mean_squared_error (data det) (data (target b)))
                   (scalar_mult (l1_regularization_weight self)
                      (mean_abs_adjacent (rows_of att)))"
proof -
  from assms(1,4,8) obtain lengths att det sm loss
    where lengths: "ray_lengths (points b) = Inr lengths"
      and att: "projection_attenuation self b = Inr att"
      and det: "compute_projection_values (int r) att lengths = Inr det"
      and sm: "smoothness att = Inr sm"
      and loss: "mse_loss det (target b) = Inr loss"
      and total: "total_loss = scalar_add loss (scalar_mult (l1_regularization_weight self) sm)"
    by (auto simp: training_step_def and_then_def Let_def split: sum.splits)
  from att assms(4) obtain out
    where out: "forward self (points b) (Some (to_float (idxs b))) = Inr out"
      and v: "view out [int n, int r] = Inr att"
    by (auto simp: projection_attenuation_def and_then_def split: sum.splits)
  have vatt: "valid_tensor att" and satt: "shape att = [n, r]"
    using view_valid [OF v forward_valid [OF assms(2,3) out]] view_shape_exact [OF v]
    by simp_all
  have len: "shape lengths = [n]" "valid_tensor lengths"
    using ray_lengths_valid [OF assms(4,5) lengths] by simp_all
  have d: "det = \<lparr>shape = [n],
                   data = map2 (\<lambda>ray l. sum_list ray * (l / real r)) (rows_of att)
                            (data lengths)\<rparr>"
    using compute_projection_values_rows [OF satt vatt len, of "int r"] det by simp
  have "length (rows_of att) = n" "length (data lengths) = n"
    using satt len by (simp_all add: rows_of_def valid_tensor_def)
  then have vdet: "valid_tensor det" "shape det = shape (target b)"
    using assms(6) by (simp_all add: d valid_tensor_def)
  have "loss = mean_squared_error (data det) (data (target b))"
    using mse_loss_same [OF vdet(2,1) assms(7)] loss by simp
  moreover have "sm = mean_abs_adjacent (rows_of att)"
    using smoothness_rows [OF satt vatt] sm by simp
  ultimately show ?thesis
    using lengths att satt det d total by auto
qed

lemma example_training_step_loss:
  "training_step example_mlp example_ray_batch =
     Inr (Num (1 / 4),
          example_mlp\<lparr>logged := [LogDict [(''train/loss'', Num (1 / 4)),
                                           (''train/loss_total'', Num (1 / 4)),
                                           (''train/l1_regularization'', Num 0)]]\<rparr>)
   \<and> (\<exists>lengths att det.
         ray_lengths (points example_ray_batch) = Inr lengths
         \<and> projection_attenuation example_mlp example_ray_batch = Inr att
         \<and> shape att = [1, 2]
         \<and> compute_projection_values 2 att lengths = Inr det
         \<and> data det = map2 (\<lambda>ray l. sum_list ray * (l / 2)) (rows_of att) (data lengths)
         \<and> Num (1 / 4) = scalar_add (mean_squared_error (data det) [0])
                     (scalar_mult (1 / 10) (mean_abs_adjacent (rows_of att))))"
proof -
  have mode: "\<not> imagefit_mode example_mlp"
    and net: "net example_mlp = build_mlp ReLU example_first [] example_final"
    and w: "l1_regularization_weight example_mlp = 1 / 10"
    by (simp_all add: example_mlp_def)
  have final: "valid_linear example_final"
    by (simp add: valid_linear_def example_final_def valid_tensor_def)
  have pts: "shape (points example_ray_batch) = [1, 2, 3]" "valid_tensor (points example_ray_batch)"
    and tgt: "shape (target example_ray_batch) = [1]" "valid_tensor (target example_ray_batch)"
    and t: "data (target example_ray_batch) = [0]"
    by (simp_all add: example_ray_batch_def valid_tensor_def)
  from training_step_projection_loss
    [OF mode net final pts tgt example_training_step]
  show ?thesis
    using example_training_step by (simp add: w t)
qed


text \<open>
  \<open>forward\<close> concatenates its second argument with the coordinates along dimension 1. A
  one-dimensional tensor with entries has no dimension 1, so an index tensor with one
  entry per ray makes \<open>torch.cat\<close> raise.
\<close>

lemma forward_index_vector_raises:
  assumes "shape v = [k]" and "0 < k"
  shows "\<exists>e. forward self pts (Some v) = Inl e"
  using assms
  by (auto simp: forward_def and_then_def Let_def cat_dim1_def cat_skipped_def cat_alone_def
      split: sum.splits option.splits)

text \<open>
  A projection-mode network takes the coordinates alone (\<open>__init__\<close> adds the latent
  size to the width of the first layer only in imagefit mode), so the step returns only
  for a batch whose index tensor has no entry at all.
\<close>

lemma training_step_projection_returns_without_index:
  assumes "\<not> imagefit_mode self" and "encoder self = None"
    and "net self = build_mlp act first hidden final" and "shape (weight first) = [h, 3]"
    and "training_step self b = Inr r"
  shows "prod_list (ishape (idxs b)) = 0"
proof -
  from assms(1,5) obtain lengths att
    where lengths: "ray_lengths (points b) = Inr lengths"
      and att: "projection_attenuation self b = Inr att"
    by (auto simp: training_step_def and_then_def split: sum.splits)
  from lengths have rank: "2 < length (shape (points b))"
    by (auto simp: ray_lengths_def split: if_splits)
  from att obtain out where out: "forward self (points b) (Some (to_float (idxs b))) = Inr out"
    by (auto simp: projection_attenuation_def and_then_def split: sum.splits)
  from out rank assms(2) obtain pts x
    where pts: "view (points b) [- 1, 3] = Inr pts"
      and cat: "cat_dim1 (Some (to_float (idxs b))) pts = Inr x"
      and run: "module_forward (net self) x \<noteq> Inl RuntimeError"
    by (auto simp: forward_def and_then_def Let_def split: sum.splits)
  from pts have sp: "length (shape pts) = 2" "shape pts ! 1 = 3"
    by (auto simp: view_def view_shape_def and_then_def Let_def split: if_splits)
  from run assms(3,4) have last: "shape x \<noteq> [] \<and> last (shape x) = 3"
    by (auto simp: build_mlp_def linear_forward_def split: if_splits)
  let ?v = "to_float (idxs b)"
  show ?thesis
  proof (cases "cat_skipped ?v")
    case True
    then show ?thesis by (simp add: cat_skipped_def to_float_def)
  next
    case False
    have ns: "\<not> cat_skipped pts"
      using sp by (auto simp: cat_skipped_def)
    from cat False ns have r2: "length (shape ?v) = 2"
      and x: "shape x = hd (shape ?v) # (shape ?v ! 1 + shape pts ! 1) # drop 2 (shape ?v)"
      using sp by (auto simp: cat_dim1_def Let_def split: if_splits)
    from r2 obtain a p where v: "shape ?v = [a, p]"
      by (cases "shape ?v"; cases "tl (shape ?v)") auto
    from last x v sp have "p = 0" by simp
    with v show ?thesis by (simp add: to_float_def)
  qed
qed

text \<open>
  Claim C7. The claim is about the projection-mode training step on a batch of rays, each
  with the index of its volume. On every such batch (an index tensor of shape \<open>[k]\<close> with
  \<open>k > 0\<close>) the step raises: it hands the index tensor to \<open>forward\<close> as the latent
  argument (line 174), and \<open>forward\<close> concatenates it with the coordinates. No loss is
  computed and nothing is returned.
\<close>

theorem training_step_projection_raises:
  assumes "\<not> imagefit_mode self" and "ishape (idxs b) = [k]" and "0 < k"
  shows "\<exists>e. training_step self b = Inl e"
proof -
  have "shape (to_float (idxs b)) = [k]"
    using assms(2) by (simp add: to_float_def)
  from forward_index_vector_raises [OF this assms(3)]
  obtain e where "forward self (points b) (Some (to_float (idxs b))) = Inl e" by blast
  then have "projection_attenuation self b = Inl e"
    by (simp add: projection_attenuation_def and_then_def)
  with assms(1) show ?thesis
    by (auto simp: training_step_def and_then_def split: sum.splits)
qed

theorem training_step_projection_raises_witness:
  "training_step example_mlp example_indexed_batch = Inl IndexError
   \<and> (\<exists>e. training_step example_mlp example_indexed_batch = Inl e)"
proof -
  have mode: "\<not> imagefit_mode example_mlp" "encoder example_mlp = None"
    by (simp_all add: example_mlp_def)
  have b: "ishape (idxs example_indexed_batch) = [1]"
    "points example_indexed_batch = \<lparr>shape = [1, 2, 3], data = [0, 0, 0, 1, 0, 0]\<rparr>"
    by (simp_all add: example_indexed_batch_def example_ray_batch_def)
  have one: "0 < (1::nat)" by simp
  have "view \<lparr>shape = [1, 2, 3], data = [0, 0, 0, 1, 0, 0]\<rparr> [- 1, 3]
          = Inr \<lparr>shape = [2, 3], data = [0, 0, 0, 1, 0, 0]\<rparr>"
    by (simp add: view_def view_shape_def and_then_def)
  then have "forward example_mlp (points example_indexed_batch)
               (Some (to_float (idxs example_indexed_batch))) = Inl IndexError"
    using b mode
    by (simp add: forward_def and_then_def to_float_def cat_dim1_def cat_skipped_def
        example_indexed_batch_def)
  then have "projection_attenuation example_mlp example_indexed_batch = Inl IndexError"
    by (simp add: projection_attenuation_def and_then_def)
  then have "training_step example_mlp example_indexed_batch = Inl IndexError"
    using example_ray_lengths mode b
    by (simp add: training_step_def and_then_def)
  with training_step_projection_raises [OF mode(1) b(1) one]
  show ?thesis by simp
qed

subsection \<open>Rounding to 32-bit floats\<close>

lemma exponent_from_stop:
  "127 \<le> e \<or> \<bar>x\<bar> < 2 powi (e + 1) \<Longrightarrow> exponent_from e x = e"
  by (subst exponent_from.simps) simp

lemma exponent_from_step:
  "\<not> (127 \<le> e \<or> \<bar>x\<bar> < 2 powi (e + 1)) \<Longrightarrow> exponent_from e x = exponent_from (e + 1) x"
  by (subst exponent_from.simps) simp

lemma exponent_from_range: "s \<le> 127 \<Longrightarrow> s \<le> exponent_from s x \<and> exponent_from s x \<le> 127"
proof (induction s x rule: exponent_from.induct)
  case (1 e x)
  show ?case
  proof (cases "127 \<le> e \<or> \<bar>x\<bar> < 2 powi (e + 1)")
    case True
    with 1(2) show ?thesis by (simp add: exponent_from_stop)
  next
    case False
    with 1 show ?thesis by (simp add: exponent_from_step)
  qed
qed

lemma exponent_from_upper:
  "exponent_from s x < 127 \<Longrightarrow> \<bar>x\<bar> < 2 powi (exponent_from s x + 1)"
proof (induction s x rule: exponent_from.induct)
  case (1 e x)
  show ?case
  proof (cases "127 \<le> e \<or> \<bar>x\<bar> < 2 powi (e + 1)")
    case True
    with 1(2) show ?thesis by (auto simp: exponent_from_stop)
  next
    case False
    with 1 show ?thesis by (simp add: exponent_from_step)
  qed
qed

lemma exponent_from_lower:
  "s < exponent_from s x \<Longrightarrow> s \<le> 127 \<Longrightarrow> 2 powi (exponent_from s x) \<le> \<bar>x\<bar>"
proof (induction s x rule: exponent_from.induct)
  case (1 e x)
  show ?case
  proof (cases "127 \<le> e \<or> \<bar>x\<bar> < 2 powi (e + 1)")
    case True
    with 1(2) show ?thesis by (simp add: exponent_from_stop)
  next
    case False
    then have eq: "exponent_from e x = exponent_from (e + 1) x"
      by (rule exponent_from_step)
    show ?thesis
    proof (cases "e + 1 < exponent_from (e + 1) x")
      case True
      with 1(1) False show ?thesis unfolding eq by simp
    next
      case f: False
      from exponent_from_range [of "e + 1" x] False have "e + 1 \<le> exponent_from (e + 1) x" by simp
      with f have "exponent_from (e + 1) x = e + 1" by simp
      with False show ?thesis unfolding eq by simp
    qed
  qed
qed

lemma exponent32_range: "- 126 \<le> exponent32 x" "exponent32 x \<le> 127"
  using exponent_from_range [of "- 126" x] by (simp_all add: exponent32_def)

lemma exponent32_upper: "exponent32 x < 127 \<Longrightarrow> \<bar>x\<bar> < 2 powi (exponent32 x + 1)"
  unfolding exponent32_def by (rule exponent_from_upper)

lemma exponent32_lower: "- 126 < exponent32 x \<Longrightarrow> 2 powi (exponent32 x) \<le> \<bar>x\<bar>"
  unfolding exponent32_def by (rule exponent_from_lower) simp_all

lemma exponent32_eq:
  assumes "- 126 \<le> e" and "e \<le> 127"
    and "e = - 126 \<or> 2 powi e \<le> \<bar>x\<bar>" and "e = 127 \<or> \<bar>x\<bar> < 2 powi (e + 1)"
  shows "exponent32 x = e"
proof (rule antisym)
  show "exponent32 x \<le> e"
  proof (rule ccontr)
    assume "\<not> exponent32 x \<le> e"
    then have gt: "e + 1 \<le> exponent32 x" by simp
    with assms(1) have "2 powi (exponent32 x) \<le> \<bar>x\<bar>" by (intro exponent32_lower) simp
    moreover have "2 powi (e + 1) \<le> (2::real) powi (exponent32 x)"
      using gt by (intro power_int_increasing) simp_all
    moreover have "e \<noteq> 127" using gt exponent32_range(2) [of x] by simp
    ultimately show False using assms(4) by simp
  qed
  show "e \<le> exponent32 x"
  proof (rule ccontr)
    assume "\<not> e \<le> exponent32 x"
    then have lt: "exponent32 x + 1 \<le> e" by simp
    with assms(2) have "\<bar>x\<bar> < 2 powi (exponent32 x + 1)" by (intro exponent32_upper) simp
    moreover have "2 powi (exponent32 x + 1) \<le> (2::real) powi e"
      using lt by (intro power_int_increasing) simp_all
    moreover have "e \<noteq> - 126" using lt exponent32_range(1) [of x] by simp
    ultimately show False using assms(3) by simp
  qed
qed

lemma round_half_even_of_int [simp]: "round_half_even (of_int k) = k"
  by (simp add: round_half_even_def)

lemma round_half_even_le: "y \<le> of_int k \<Longrightarrow> round_half_even y \<le> k"
proof -
  assume le: "y \<le> of_int k"
  show ?thesis
  proof (cases "y = of_int k")
    case True then show ?thesis by simp
  next
    case False
    with le have "y < of_int k" by simp
    then have "\<lfloor>y\<rfloor> < k" by (simp add: floor_less_iff)
    then show ?thesis by (simp add: round_half_even_def Let_def)
  qed
qed

lemma round_half_even_ge: "of_int k \<le> y \<Longrightarrow> k \<le> round_half_even y"
proof -
  assume "of_int k \<le> y"
  then have "k \<le> \<lfloor>y\<rfloor>" by (simp add: le_floor_iff)
  then show ?thesis by (simp add: round_half_even_def Let_def)
qed

lemma round_half_even_error: "\<bar>of_int (round_half_even y) - y\<bar> \<le> 1 / 2"
proof -
  have "of_int \<lfloor>y\<rfloor> \<le> y" "y < of_int \<lfloor>y\<rfloor> + 1" by linarith+
  then show ?thesis by (auto simp: round_half_even_def Let_def abs_le_iff)
qed

lemma two_powi_le_iff: "(2::real) powi a \<le> 2 powi b \<longleftrightarrow> a \<le> b"
proof
  assume le: "(2::real) powi a \<le> 2 powi b"
  show "a \<le> b"
  proof (rule ccontr)
    assume "\<not> a \<le> b"
    then have "(2::real) powi b < 2 powi a" by (intro power_int_strict_increasing) simp_all
    with le show False by simp
  qed
next
  assume "a \<le> b"
  then show "(2::real) powi a \<le> 2 powi b" by (intro power_int_increasing) simp_all
qed

lemma two_powi_quotient:
  assumes "b \<le> a"
  shows "(2::real) powi a / 2 powi b = of_int (2 ^ nat (a - b))"
proof -
  have "(2::real) powi a / 2 powi b = 2 powi (a - b)" by (simp add: power_int_diff)
  also have "\<dots> = 2 ^ nat (a - b)" using assms by (simp add: power_int_nonneg_exp)
  finally show ?thesis by simp
qed

lemma round32_upper:
  assumes "0 \<le> x" and "x \<le> 2 powi k" and "- 149 \<le> k" and "k \<le> 127"
  shows "\<exists>z. round32 x = Finite z \<and> 0 \<le> z \<and> z \<le> 2 powi k"
proof -
  let ?e = "exponent32 x"
  let ?q = "(2::real) powi (?e - 23)"
  let ?m = "round_half_even (x / ?q)"
  have ek: "?e - 23 \<le> k"
  proof (cases "?e = - 126")
    case True with assms(3) show ?thesis by simp
  next
    case False
    then have "2 powi ?e \<le> \<bar>x\<bar>" using exponent32_range(1) [of x] by (intro exponent32_lower) simp
    with assms(1,2) have "(2::real) powi ?e \<le> 2 powi k" by simp
    then have "?e \<le> k" by (simp add: two_powi_le_iff)
    then show ?thesis by simp
  qed
  have bq: "2 powi k / ?q = of_int (2 ^ nat (k - (?e - 23)))"
    using ek by (rule two_powi_quotient)
  have "x / ?q \<le> 2 powi k / ?q"
    using assms(2) by (simp add: divide_right_mono)
  then have "?m \<le> 2 ^ nat (k - (?e - 23))"
    unfolding bq by (rule round_half_even_le)
  then have "of_int ?m \<le> 2 powi k / ?q"
    unfolding bq by (simp only: of_int_le_iff)
  then have up: "of_int ?m * ?q \<le> 2 powi k"
    by (simp add: pos_le_divide_eq)
  have "0 \<le> x / ?q" using assms(1) by simp
  then have "0 \<le> ?m" using round_half_even_ge [of 0 "x / ?q"] by simp
  then have lo: "0 \<le> of_int ?m * ?q" by simp
  have "(2::real) powi k \<le> 2 powi 127"
    using assms(4) by (intro power_int_increasing) simp_all
  also have "\<dots> < 2 ^ 128" by simp
  finally have "\<bar>of_int ?m * ?q\<bar> < 2 ^ 128" using up lo by simp
  then show ?thesis using up lo by (simp add: round32_def Let_def)
qed

lemma round32_lower:
  assumes "1 \<le> x"
  shows "round32 x = PlusInf \<or> (\<exists>z. round32 x = Finite z \<and> 1 \<le> z)"
proof -
  let ?e = "exponent32 x"
  let ?q = "(2::real) powi (?e - 23)"
  let ?m = "round_half_even (x / ?q)"
  have e0: "0 \<le> ?e"
  proof (rule ccontr)
    assume "\<not> 0 \<le> ?e"
    then have lt: "?e + 1 \<le> 0" by simp
    then have "\<bar>x\<bar> < 2 powi (?e + 1)" by (intro exponent32_upper) simp
    moreover have "(2::real) powi (?e + 1) \<le> 2 powi 0"
      using lt by (intro power_int_increasing) simp_all
    ultimately show False using assms by simp
  qed
  then have "2 powi ?e \<le> \<bar>x\<bar>" by (intro exponent32_lower) simp
  then have "2 powi ?e / ?q \<le> x / ?q" using assms by (simp add: divide_right_mono)
  moreover have pq: "2 powi ?e / ?q = of_int (2 ^ 23)"
    using two_powi_quotient [of "?e - 23" ?e] by simp
  ultimately have "of_int (2 ^ 23) \<le> x / ?q" by simp
  then have "2 ^ 23 \<le> ?m" by (rule round_half_even_ge)
  then have "(of_int (2 ^ 23) :: real) \<le> of_int ?m" by (simp only: of_int_le_iff)
  then have "2 powi ?e / ?q * ?q \<le> of_int ?m * ?q"
    unfolding pq by (intro mult_right_mono) simp_all
  then have "2 powi ?e \<le> of_int ?m * ?q" by simp
  moreover have "(1::real) \<le> 2 powi ?e" using e0 by simp
  ultimately have "1 \<le> of_int ?m * ?q" by simp
  then show ?thesis using assms by (simp add: round32_def Let_def)
qed

lemma exponent32_le:
  assumes "\<bar>x\<bar> < 2 powi (e + 1)" and "- 126 \<le> e"
  shows "exponent32 x \<le> e"
proof (rule ccontr)
  assume "\<not> exponent32 x \<le> e"
  then have gt: "e + 1 \<le> exponent32 x" by simp
  with assms(2) have "2 powi (exponent32 x) \<le> \<bar>x\<bar>" by (intro exponent32_lower) simp
  moreover have "2 powi (e + 1) \<le> (2::real) powi (exponent32 x)"
    using gt by (simp add: two_powi_le_iff)
  ultimately show False using assms(1) by simp
qed

text \<open>A number with a 24-bit significand at or above the exponent of its binade is a
  32-bit float: rounding returns it.\<close>

lemma round32_exact:
  assumes "x = of_int k * 2 powi j" and "exponent32 x - 23 \<le> j" and "\<bar>x\<bar> < 2 ^ 128"
  shows "round32 x = Finite x"
proof -
  let ?q = "(2::real) powi (exponent32 x - 23)"
  have "x / ?q = of_int k * (2 powi j / ?q)" using assms(1) by simp
  also have "\<dots> = of_int (k * 2 ^ nat (j - (exponent32 x - 23)))"
    using two_powi_quotient [OF assms(2)] by simp
  finally have "round_half_even (x / ?q) = k * 2 ^ nat (j - (exponent32 x - 23))"
    by (simp only: round_half_even_of_int)
  then have "of_int (round_half_even (x / ?q)) * ?q
               = of_int k * (of_int (2 ^ nat (j - (exponent32 x - 23))) * ?q)"
    by simp
  also have "\<dots> = of_int k * (2 powi j / ?q * ?q)"
    using two_powi_quotient [OF assms(2)] by simp
  also have "\<dots> = x" using assms(1) by simp
  finally show ?thesis using assms(3) by (simp add: round32_def Let_def)
qed

lemma round32_of_int:
  assumes "\<bar>k\<bar> < 2 ^ 24"
  shows "round32 (of_int k) = Finite (of_int k)"
proof (rule round32_exact [where k = k and j = 0])
  have lt: "\<bar>of_int k :: real\<bar> < 2 ^ 24"
    using assms by (metis of_int_abs of_int_less_iff of_int_numeral of_int_power)
  then have "exponent32 (of_int k) \<le> 23"
    by (intro exponent32_le) simp_all
  then show "exponent32 (of_int k) - 23 \<le> 0" by simp
  show "\<bar>of_int k :: real\<bar> < 2 ^ 128" using lt by simp
qed simp

lemma round32_zero [simp]: "round32 0 = Finite 0"
  using round32_of_int [of 0] by simp

lemma round32_one [simp]: "round32 1 = Finite 1"
  using round32_of_int [of 1] by simp

lemma round_half_even_down:
  assumes "\<lfloor>y\<rfloor> = f" and "even f" and "y - of_int f \<le> 1 / 2"
  shows "round_half_even y = f"
  using assms by (auto simp: round_half_even_def Let_def)

lemma round_half_even_up:
  assumes "\<lfloor>y\<rfloor> = f" and "1 / 2 < y - of_int f \<or> (odd f \<and> y - of_int f = 1 / 2)"
  shows "round_half_even y = f + 1"
  using assms by (auto simp: round_half_even_def Let_def)

lemma round32_relative:
  assumes "1 / 2 ^ 126 \<le> \<bar>x\<bar>" and "\<bar>x\<bar> < 2 ^ 127"
  shows "\<exists>z. round32 x = Finite z \<and> \<bar>z - x\<bar> \<le> \<bar>x\<bar> / 2 ^ 24"
proof -
  let ?e = "exponent32 x"
  let ?q = "(2::real) powi (?e - 23)"
  let ?m = "round_half_even (x / ?q)"
  have "?e \<le> 126" using assms(2) by (intro exponent32_le) simp_all
  then have up: "\<bar>x\<bar> < 2 powi (?e + 1)" by (intro exponent32_upper) simp
  have lo: "2 powi ?e \<le> \<bar>x\<bar>"
  proof (cases "?e = - 126")
    case True
    then show ?thesis using assms(1) by (simp add: power_int_minus_divide)
  next
    case False
    then show ?thesis using exponent32_range(1) [of x] by (intro exponent32_lower) simp
  qed
  have half: "?q / 2 = 2 powi ?e / 2 ^ 24"
    by (simp add: power_int_diff)
  have "\<bar>of_int ?m - x / ?q\<bar> \<le> 1 / 2" by (rule round_half_even_error)
  then have "\<bar>of_int ?m - x / ?q\<bar> * ?q \<le> 1 / 2 * ?q"
    by (intro mult_right_mono) simp_all
  moreover have "\<bar>of_int ?m - x / ?q\<bar> * ?q = \<bar>of_int ?m * ?q - x\<bar>"
  proof -
    have "\<bar>of_int ?m - x / ?q\<bar> * ?q = \<bar>(of_int ?m - x / ?q) * ?q\<bar>"
      by (simp add: abs_mult)
    also have "(of_int ?m - x / ?q) * ?q = of_int ?m * ?q - x"
      by (simp add: left_diff_distrib)
    finally show ?thesis .
  qed
  ultimately have "\<bar>of_int ?m * ?q - x\<bar> \<le> ?q / 2" by simp
  also have "\<dots> \<le> \<bar>x\<bar> / 2 ^ 24"
    unfolding half using lo by (intro divide_right_mono) simp_all
  finally have err: "\<bar>of_int ?m * ?q - x\<bar> \<le> \<bar>x\<bar> / 2 ^ 24" .
  have "\<bar>of_int ?m * ?q\<bar> \<le> \<bar>x\<bar> + \<bar>x\<bar> / 2 ^ 24" using err by linarith
  also have "\<dots> < 2 ^ 128" using assms(2) by simp
  finally have "\<bar>of_int ?m * ?q\<bar> < 2 ^ 128" .
  then show ?thesis using err by (simp add: round32_def Let_def)
qed

subsection \<open>The sigmoid in 32-bit floats\<close>

lemma round32_one_plus_small:
  assumes "0 \<le> z" and "z \<le> 2 powi (- 24)"
  shows "round32 (1 + z) = Finite 1"
proof -
  have small: "z \<le> 1 / 2 ^ 24" using assms(2) by (simp add: power_int_minus_divide)
  have e: "exponent32 (1 + z) = 0"
    using assms(1) small by (intro exponent32_eq) simp_all
  have q: "(2::real) powi (0 - 23) = 1 / 2 ^ 23" by (simp add: power_int_minus_divide)
  let ?y = "(1 + z) / (1 / 2 ^ 23)"
  have fl: "\<lfloor>?y\<rfloor> = 2 ^ 23"
    using assms(1) small by (intro floor_unique) simp_all
  have "round_half_even ?y = 2 ^ 23"
    using fl
  proof (rule round_half_even_down)
    show "even ((2::int) ^ 23)" by simp
    show "?y - of_int (2 ^ 23) \<le> 1 / 2" using small by simp
  qed
  then show ?thesis
    unfolding round32_def e q Let_def by simp
qed

lemma exp_20_lower: "(2::real) ^ 24 \<le> exp 20"
proof -
  have "(5 / 2 :: real) \<le> exp 1"
    using exp_lower_Taylor_quadratic [of "1::real"] by simp
  then have "(5 / 2 :: real) ^ 20 \<le> exp 1 ^ 20"
    by (intro power_mono) simp_all
  also have "exp 1 ^ 20 = exp (20 :: real)"
    using exp_of_nat_mult [of 20 "1::real"] by simp
  finally have "(5 / 2 :: real) ^ 20 \<le> exp 20" .
  moreover have "(2::real) ^ 24 \<le> (5 / 2) ^ 20" by (simp add: power_divide)
  ultimately show ?thesis by linarith
qed

lemma exp32_minus_20:
  "\<exists>z. exp32 (Finite (- 20)) = Finite z \<and> 0 \<le> z \<and> z \<le> 2 powi (- 24)"
proof -
  have "exp (- 20 :: real) = 1 / exp 20" by (simp add: exp_minus inverse_eq_divide)
  also have "\<dots> \<le> 1 / 2 ^ 24"
    using exp_20_lower by (intro divide_left_mono) simp_all
  finally have "exp (- 20 :: real) \<le> 2 powi (- 24)" by (simp add: power_int_minus_divide)
  then show ?thesis
    using round32_upper [of "exp (- 20)" "- 24"] by simp
qed

lemma sigmoid32_20: "sigmoid32 (Finite 20) = Finite 1"
proof -
  from exp32_minus_20 obtain z
    where z: "exp32 (Finite (- 20)) = Finite z" "0 \<le> z" "z \<le> 2 powi (- 24)" by blast
  show ?thesis
    using z(1) round32_one_plus_small [OF z(2,3)] by (simp add: sigmoid32_def)
qed

lemma round32_small_integers:
  "round32 2 = Finite 2" "round32 3 = Finite 3" "round32 4 = Finite 4" "round32 20 = Finite 20"
  using round32_of_int [of 2] round32_of_int [of 3] round32_of_int [of 4] round32_of_int [of 20]
  by simp_all

lemma round32_half: "round32 (1 / 2) = Finite (1 / 2)"
proof (rule round32_exact [where k = 1 and j = "- 1"])
  have "exponent32 (1 / 2) \<le> - 1" by (intro exponent32_le) simp_all
  then show "exponent32 (1 / 2) - 23 \<le> - 1" by simp
qed (simp_all add: power_int_minus_divide)

lemma round32_overflows:
  assumes "2 ^ 128 \<le> x"
  shows "round32 x = PlusInf"
proof -
  have x: "(2::real) powi 127 \<le> \<bar>x\<bar>" "0 < x"
  proof -
    have "(2::real) powi 127 \<le> 2 ^ 128" by simp
    with assms show "(2::real) powi 127 \<le> \<bar>x\<bar>" by linarith
    have "(0::real) < 2 ^ 128" by simp
    with assms show "0 < x" by linarith
  qed
  have e: "exponent32 x = 127" using x(1) by (intro exponent32_eq) simp_all
  let ?q = "(2::real) powi (127 - 23)"
  have "of_int (2 ^ 24) * ?q = (2::real) ^ 128" by simp
  then have "of_int (2 ^ 24) = (2::real) ^ 128 / ?q" by (simp add: field_simps)
  also have "\<dots> \<le> x / ?q" using assms by (intro divide_right_mono) simp_all
  finally have "2 ^ 24 \<le> round_half_even (x / ?q)" by (rule round_half_even_ge)
  then have "(of_int (2 ^ 24) :: real) \<le> of_int (round_half_even (x / ?q))"
    by (simp only: of_int_le_iff)
  then have "of_int (2 ^ 24) * ?q \<le> of_int (round_half_even (x / ?q)) * ?q"
    by (intro mult_right_mono) simp_all
  moreover have "of_int (2 ^ 24) * ?q = (2::real) ^ 128" by simp
  ultimately have "2 ^ 128 \<le> \<bar>of_int (round_half_even (x / ?q)) * ?q\<bar>" by linarith
  then show ?thesis using x(2) unfolding round32_def e Let_def by simp
qed

lemma exp_100_lower: "(2::real) ^ 128 \<le> exp 100"
proof -
  have "(5 / 2 :: real) \<le> exp 1"
    using exp_lower_Taylor_quadratic [of "1::real"] by simp
  then have "(5 / 2 :: real) ^ 100 \<le> exp 1 ^ 100"
    by (intro power_mono) simp_all
  also have "exp 1 ^ 100 = exp (100 :: real)"
    using exp_of_nat_mult [of 100 "1::real"] by simp
  finally have "(5 / 2 :: real) ^ 100 \<le> exp 100" .
  moreover have "(2::real) ^ 128 \<le> (5 / 2) ^ 100" by (simp add: power_divide)
  ultimately show ?thesis by linarith
qed

lemma sigmoid32_minus_100: "sigmoid32 (Finite (- 100)) = Finite 0"
  using round32_overflows [OF exp_100_lower] by (simp add: sigmoid32_def)

lemma round32_overflow: "round32 (2 ^ 128) = PlusInf"
  by (rule round32_overflows) simp

lemma output_unit32_not_a_number:
  "mul32 (Finite (2 ^ 127)) (Finite 2) = PlusInf
   \<and> output_unit32 [Finite 0] (Finite 0) [PlusInf] = NotANumber"
  using round32_overflow by (simp add: output_unit32_def dot32_def sum32_def sigmoid32_def)

text \<open>
  Claim C8 (amended). Every scalar that the output unit of the network produces lies in
  the closed interval from 0 to 1, whatever the final weights, the final bias and the
  hidden features, as long as its pre-activation is not not-a-number. The interval is
  closed, not open: in 32-bit floats the sigmoid reaches 1 and 0 exactly (lemmas
  \<open>sigmoid32_20\<close> and \<open>sigmoid32_minus_100\<close>; in exact arithmetic the output is strictly
  inside, lemma \<open>forward_output_in_unit_interval\<close>). A not-a-number pre-activation, which overflow in
  an earlier layer can produce from finite inputs and parameters (lemma
  \<open>output_unit32_not_a_number\<close>), gives a not-a-number output.
\<close>

theorem output_unit32_in_closed_unit_interval:
  assumes "add32 (dot32 w h) b \<noteq> NotANumber"
  shows "\<exists>s. output_unit32 w b h = Finite s \<and> 0 \<le> s \<and> s \<le> 1"
proof -
  define x where "x = add32 (dot32 w h) b"
  have nn: "x \<noteq> NotANumber" using assms by (simp add: x_def)
  have out: "output_unit32 w b h = sigmoid32 x" by (simp add: output_unit32_def x_def)
  have ex: "exp32 (neg32 x) = PlusInf \<or> (\<exists>z. exp32 (neg32 x) = Finite z \<and> 0 \<le> z)"
  proof (cases x)
    case (Finite a)
    have "round32 (exp (- a)) = PlusInf \<or> (\<exists>z. round32 (exp (- a)) = Finite z \<and> 1 \<le> z)"
      if "1 \<le> exp (- a)"
      using that by (rule round32_lower)
    moreover have "\<exists>z. round32 (exp (- a)) = Finite z \<and> 0 \<le> z \<and> z \<le> 2 powi 0"
      if "exp (- a) \<le> 1"
      using that by (intro round32_upper) simp_all
    ultimately show ?thesis using Finite by (cases "1 \<le> exp (- a)") fastforce+
  qed (use nn in simp_all)
  have den: "add32 (Finite 1) (exp32 (neg32 x)) = PlusInf
             \<or> (\<exists>v. add32 (Finite 1) (exp32 (neg32 x)) = Finite v \<and> 1 \<le> v)"
  proof (cases "exp32 (neg32 x) = PlusInf")
    case True then show ?thesis by simp
  next
    case False
    with ex obtain z where z: "exp32 (neg32 x) = Finite z" "0 \<le> z" by blast
    then show ?thesis using round32_lower [of "1 + z"] by simp
  qed
  have "\<exists>s. sigmoid32 x = Finite s \<and> 0 \<le> s \<and> s \<le> 1"
  proof (cases "add32 (Finite 1) (exp32 (neg32 x)) = PlusInf")
    case True then show ?thesis by (simp add: sigmoid32_def)
  next
    case False
    with den obtain v where v: "add32 (Finite 1) (exp32 (neg32 x)) = Finite v" "1 \<le> v"
      by blast
    have "\<exists>s. round32 (1 / v) = Finite s \<and> 0 \<le> s \<and> s \<le> 2 powi 0"
      using v(2) by (intro round32_upper) simp_all
    then show ?thesis using v by (simp add: sigmoid32_def)
  qed
  then show ?thesis unfolding out .
qed

theorem output_unit32_in_closed_unit_interval_witness:
  "output_unit32 [Finite 0] (Finite 0) [Finite (1 / 2)] = Finite (1 / 2)
   \<and> (\<exists>s. output_unit32 [Finite 0] (Finite 0) [Finite (1 / 2)] = Finite s \<and> 0 \<le> s \<and> s \<le> 1)"
proof -
  have pre: "add32 (dot32 [Finite 0] [Finite (1 / 2)]) (Finite 0) = Finite 0"
    by (simp add: dot32_def sum32_def)
  then have "add32 (dot32 [Finite 0] [Finite (1 / 2)]) (Finite 0) \<noteq> NotANumber" by simp
  from output_unit32_in_closed_unit_interval [OF this]
  show ?thesis
    by (simp add: output_unit32_def pre sigmoid32_def round32_small_integers round32_half)
qed

text \<open>
  The claim as the specification states it, strictly inside the open interval for every
  configuration of the parameters, fails: with the final weights zero and the final bias
  20 the pre-activation is 20, \<open>exp(-20)\<close> is below half a unit in the last place of 1, so
  \<open>1 + exp(-20)\<close> rounds to 1 and the output is exactly 1.
\<close>

theorem output_unit32_saturates:
  "output_unit32 [Finite 0] (Finite 20) [Finite (1 / 2)] = Finite 1
   \<and> \<not> in_open_unit_interval (output_unit32 [Finite 0] (Finite 20) [Finite (1 / 2)])"
proof -
  have "add32 (dot32 [Finite 0] [Finite (1 / 2)]) (Finite 20) = Finite 20"
    by (simp add: dot32_def sum32_def round32_small_integers)
  then have "output_unit32 [Finite 0] (Finite 20) [Finite (1 / 2)] = Finite 1"
    by (simp add: output_unit32_def sigmoid32_20)
  then show ?thesis by simp
qed

subsection \<open>The ray integrator in 32-bit floats\<close>

lemma growth_bound:
  fixes u :: real
  assumes "0 \<le> u"
  shows "(1 + u) ^ n * (1 - of_nat n * u) \<le> 1"
proof (induction n)
  case 0
  show ?case by simp
next
  case (Suc n)
  have "(1 + u) * (1 - of_nat (Suc n) * u) = 1 - of_nat n * u - of_nat (Suc n) * u\<^sup>2"
    by (simp add: algebra_simps power2_eq_square)
  also have "\<dots> \<le> 1 - of_nat n * u" by simp
  finally have "(1 + u) ^ n * ((1 + u) * (1 - of_nat (Suc n) * u))
                  \<le> (1 + u) ^ n * (1 - of_nat n * u)"
    using assms by (intro mult_left_mono) simp_all
  also note Suc
  finally show ?case by (simp add: mult_ac)
qed

lemma growth_small:
  assumes "n \<le> 2 ^ 20"
  shows "(1 + 1 / 2 ^ 24 :: real) ^ n - 1 \<le> 1 / 15"
proof -
  let ?a = "(1 + 1 / 2 ^ 24 :: real) ^ n"
  have "real n \<le> 2 ^ 20" using assms by (metis of_nat_le_iff of_nat_numeral of_nat_power)
  then have "real n * (1 / 2 ^ 24) \<le> 1 / 16" by simp
  then have "15 / 16 \<le> 1 - real n * (1 / 2 ^ 24)" by simp
  moreover have "0 \<le> ?a" by simp
  ultimately have "?a * (15 / 16) \<le> ?a * (1 - real n * (1 / 2 ^ 24))"
    by (intro mult_left_mono)
  also have "\<dots> \<le> 1" by (rule growth_bound) simp
  finally show ?thesis by simp
qed


lemma sum32_constant:
  fixes p :: real
  assumes "1 / 2 ^ 100 \<le> \<bar>p\<bar>" and "\<bar>p\<bar> \<le> 2 ^ 100" and "n \<le> 2 ^ 20"
  shows "\<exists>s. foldl add32 (Finite 0) (replicate n (Finite p)) = Finite s
           \<and> \<bar>s - real n * p\<bar> \<le> ((1 + 1 / 2 ^ 24) ^ n - 1) * (real n * \<bar>p\<bar>)"
  using assms(3)
proof (induction n)
  case 0
  show ?case by simp
next
  case (Suc n)
  define u :: real where "u = 1 / 2 ^ 24"
  define g where "g = (1 + u) ^ n - 1"
  define P where "P = real (Suc n) * \<bar>p\<bar>"
  define Q where "Q = real n * \<bar>p\<bar>"
  from Suc obtain s where s: "foldl add32 (Finite 0) (replicate n (Finite p)) = Finite s"
    and err: "\<bar>s - real n * p\<bar> \<le> g * Q"
    by (auto simp: g_def u_def Q_def)
  have u0: "0 \<le> u" by (simp add: u_def)
  have g0: "0 \<le> g" using u0 by (simp add: g_def)
  have g1: "g \<le> 1 / 15"
    using growth_small [of n] Suc(2) by (simp add: g_def u_def)
  have "1 * \<bar>p\<bar> \<le> real (Suc n) * \<bar>p\<bar>" by (intro mult_right_mono) simp_all
  then have QP: "Q \<le> P" "0 \<le> Q" "\<bar>p\<bar> \<le> P"
    by (simp_all add: P_def Q_def mult_right_mono)
  have P0: "0 \<le> P" by (simp add: P_def)
  have gQ: "g * Q \<le> g * P" "g * P \<le> 1 / 15 * P"
  proof -
    show "g * Q \<le> g * P" using QP(1) g0 by (rule mult_left_mono)
    show "g * P \<le> 1 / 15 * P" using g1 P0 by (rule mult_right_mono)
  qed
  have Pup: "P \<le> 2 ^ 20 * 2 ^ 100"
  proof -
    have "real (Suc n) \<le> 2 ^ 20"
      using Suc(2) by (metis of_nat_le_iff of_nat_numeral of_nat_power)
    then show ?thesis unfolding P_def using assms(2) by (intro mult_mono) simp_all
  qed
  have "replicate (Suc n) (Finite p) = replicate n (Finite p) @ [Finite p]"
    by (simp add: replicate_append_same)
  then have fold: "foldl add32 (Finite 0) (replicate (Suc n) (Finite p)) = round32 (s + p)"
    using s by (simp del: replicate_Suc)
  have "s + p - real (Suc n) * p = s - real n * p" by (simp add: algebra_simps)
  then have dev: "\<bar>s + p - real (Suc n) * p\<bar> \<le> g * Q" using err by simp
  have A: "\<bar>real (Suc n) * p\<bar> = P" by (simp add: P_def abs_mult)
  have upper: "\<bar>s + p\<bar> \<le> P + g * Q" and lower: "P - g * Q \<le> \<bar>s + p\<bar>"
    using dev A by linarith+
  have lo: "1 / 2 ^ 126 \<le> \<bar>s + p\<bar>"
  proof -
    have "(1::real) / 2 ^ 126 \<le> 14 / 15 * (1 / 2 ^ 100)" by simp
    also have "\<dots> \<le> 14 / 15 * \<bar>p\<bar>" using assms(1) by (intro mult_left_mono) simp_all
    also have "\<dots> \<le> 14 / 15 * P" using QP(3) by (intro mult_left_mono) simp_all
    also have "\<dots> \<le> \<bar>s + p\<bar>" using lower gQ by linarith
    finally show ?thesis .
  qed
  have hi: "\<bar>s + p\<bar> < 2 ^ 127"
  proof -
    have "\<bar>s + p\<bar> \<le> 16 / 15 * P" using upper gQ by linarith
    also have "\<dots> \<le> 16 / 15 * (2 ^ 20 * 2 ^ 100)" using Pup by (intro mult_left_mono) simp_all
    also have "\<dots> < 2 ^ 127" by simp
    finally show ?thesis .
  qed
  from round32_relative [OF lo hi] obtain z
    where z: "round32 (s + p) = Finite z" and zerr: "\<bar>z - (s + p)\<bar> \<le> \<bar>s + p\<bar> / 2 ^ 24"
    by blast
  have "\<bar>s + p\<bar> / 2 ^ 24 = u * \<bar>s + p\<bar>" by (simp add: u_def)
  also have "\<dots> \<le> u * (P + g * P)"
    using upper gQ(1) u0 by (intro mult_left_mono) linarith+
  finally have "\<bar>z - (s + p)\<bar> \<le> u * (P + g * P)" using zerr by linarith
  then have "\<bar>z - real (Suc n) * p\<bar> \<le> u * (P + g * P) + g * P"
    using dev gQ(1) by linarith
  also have "\<dots> = ((1 + u) * (1 + g) - 1) * P" by (simp add: algebra_simps)
  also have "(1 + u) * (1 + g) = (1 + u) ^ Suc n" by (simp add: g_def)
  finally show ?case
    using fold z by (simp add: u_def P_def)
qed

lemma sum32_zeros: "foldl add32 (Finite 0) (replicate n (Finite 0)) = Finite 0"
  by (induction n) simp_all

lemma ray_float32_constant:
  assumes "1 \<le> n" and "n \<le> 2 ^ 20"
    and "c = 0 \<or> (1 / 2 ^ 30 \<le> \<bar>c\<bar> \<and> \<bar>c\<bar> \<le> 2 ^ 30)"
    and "1 / 2 ^ 30 \<le> l" and "l \<le> 2 ^ 30"
  shows "\<exists>z. sum32 (map (\<lambda>a. mul32 a (div32 (Finite l) (of_int32 (int n))))
                      (replicate n (Finite c))) = Finite z
           \<and> \<bar>z - c * l\<bar> \<le> ((1 + 1 / 2 ^ 24) ^ (n + 2) - 1) * \<bar>c * l\<bar>"
proof -
  define u :: real where "u = 1 / 2 ^ 24"
  define N where "N = real n"
  have N: "1 \<le> N" "N \<le> 2 ^ 20"
    using assms(1,2) unfolding N_def
    by (simp, metis of_nat_le_iff of_nat_numeral of_nat_power)
  have "\<bar>int n\<bar> < 2 ^ 24"
  proof -
    have "int n \<le> 2 ^ 20" using assms(2) by (metis of_nat_le_iff of_nat_numeral of_nat_power)
    then show ?thesis by simp
  qed
  then have count: "of_int32 (int n) = Finite N"
    using round32_of_int [of "int n"] by (simp add: of_int32_def N_def)
  define r where "r = l / N"
  have q1: "1 / 2 ^ 50 \<le> r"
  proof -
    have "(1 / 2 ^ 30) / 2 ^ 20 \<le> l / N"
      using assms(4) N by (intro frac_le) simp_all
    then show ?thesis by (simp add: r_def)
  qed
  have q2: "r \<le> 2 ^ 30"
  proof -
    have "l / N \<le> 2 ^ 30 / 1" using assms(4,5) N by (intro frac_le) simp_all
    then show ?thesis by (simp add: r_def)
  qed
  have r0: "0 < r" using q1 by (rule less_le_trans [rotated]) simp
  have "1 / 2 ^ 126 \<le> \<bar>r\<bar>"
  proof -
    have "(1::real) / 2 ^ 126 \<le> 1 / 2 ^ 50" by simp
    with q1 r0 show ?thesis by linarith
  qed
  moreover have "\<bar>r\<bar> < 2 ^ 127"
  proof -
    have "(2::real) ^ 30 < 2 ^ 127" by simp
    with q2 r0 show ?thesis by linarith
  qed
  ultimately obtain d
    where d: "round32 r = Finite d" and derr: "\<bar>d - r\<bar> \<le> \<bar>r\<bar> / 2 ^ 24"
    using round32_relative [of r] by blast
  have dx: "div32 (Finite l) (of_int32 (int n)) = Finite d"
    using d N by (simp add: count r_def)
  have d1: "\<bar>d - r\<bar> \<le> u * r" using derr r0 by (simp add: u_def)
  have dlo: "1 / 2 ^ 51 \<le> d"
  proof -
    have "(1 - u) * (1 / 2 ^ 50) \<le> (1 - u) * r"
      using q1 by (intro mult_left_mono) (simp_all add: u_def)
    moreover have "(1 - u) * r = r - u * r" by (simp add: algebra_simps)
    moreover have "(1::real) / 2 ^ 51 \<le> (1 - u) * (1 / 2 ^ 50)" by (simp add: u_def)
    ultimately show ?thesis using d1 by linarith
  qed
  have dhi: "d \<le> 2 ^ 31"
  proof -
    have "(1 + u) * r = r + u * r" by (simp add: algebra_simps)
    then have "d \<le> (1 + u) * r" using d1 by linarith
    also have "\<dots> \<le> (1 + u) * 2 ^ 30" using q2 by (intro mult_left_mono) (simp_all add: u_def)
    also have "\<dots> \<le> 2 ^ 31" by (simp add: u_def)
    finally show ?thesis .
  qed
  show ?thesis
  proof (cases "c = 0")
    case True
    then show ?thesis by (simp add: dx sum32_def sum32_zeros)
  next
    case False
    with assms(3) have c: "1 / 2 ^ 30 \<le> \<bar>c\<bar>" "\<bar>c\<bar> \<le> 2 ^ 30" by simp_all
    define t where "t = \<bar>c\<bar> * r"
    have t0: "0 \<le> t" using r0 by (simp add: t_def)
    have cd: "\<bar>c * d\<bar> = \<bar>c\<bar> * d" using dlo by (simp add: abs_mult)
    have cdlo: "1 / 2 ^ 81 \<le> \<bar>c\<bar> * d"
    proof -
      have "(1 / 2 ^ 30) * (1 / 2 ^ 51) \<le> \<bar>c\<bar> * d"
        using c(1) dlo by (intro mult_mono) simp_all
      then show ?thesis by simp
    qed
    have cdhi: "\<bar>c\<bar> * d \<le> 2 ^ 61"
    proof -
      have "\<bar>c\<bar> * d \<le> 2 ^ 30 * 2 ^ 31"
        using c(2) dhi dlo by (intro mult_mono) simp_all
      then show ?thesis by simp
    qed
    have "1 / 2 ^ 126 \<le> \<bar>c * d\<bar>" "\<bar>c * d\<bar> < 2 ^ 127"
      using cdlo cdhi unfolding cd by simp_all
    from round32_relative [OF this] obtain p
      where p: "round32 (c * d) = Finite p" and perr: "\<bar>p - c * d\<bar> \<le> \<bar>c * d\<bar> / 2 ^ 24"
      by blast
    have p1: "\<bar>p - c * d\<bar> \<le> u * (\<bar>c\<bar> * d)" using perr cd by (simp add: u_def)
    have terms: "map (\<lambda>a. mul32 a (div32 (Finite l) (of_int32 (int n)))) (replicate n (Finite c))
                   = replicate n (Finite p)"
      by (simp add: dx p)
    have "\<bar>c * d - c * r\<bar> = \<bar>c\<bar> * \<bar>d - r\<bar>"
      by (simp add: abs_mult flip: right_diff_distrib)
    also have "\<dots> \<le> \<bar>c\<bar> * (u * r)" using d1 by (intro mult_left_mono) simp_all
    finally have cd1: "\<bar>c * d - c * r\<bar> \<le> u * t" by (simp add: t_def mult_ac)
    have ct: "\<bar>c * r\<bar> = t" using r0 by (simp add: t_def abs_mult)
    have "(1 + u) * t = t + u * t" by (simp add: algebra_simps)
    then have cdt: "\<bar>c\<bar> * d \<le> (1 + u) * t"
      using cd1 ct cd by linarith
    have "u * (\<bar>c\<bar> * d) \<le> u * ((1 + u) * t)"
      using cdt by (intro mult_left_mono) (simp_all add: u_def)
    with p1 cd1 have pt: "\<bar>p - c * r\<bar> \<le> u * ((1 + u) * t) + u * t" by linarith
    then have pt': "\<bar>p - c * r\<bar> \<le> ((1 + u)\<^sup>2 - 1) * t"
      by (simp add: algebra_simps power2_eq_square)
    have "(1 + u)\<^sup>2 * t = t + ((1 + u)\<^sup>2 - 1) * t" by (simp add: algebra_simps)
    then have pabs: "\<bar>p\<bar> \<le> (1 + u)\<^sup>2 * t"
      using pt' ct by linarith
    have plo: "1 / 2 ^ 100 \<le> \<bar>p\<bar>"
    proof -
      have "(1 - u) * (1 / 2 ^ 81) \<le> (1 - u) * (\<bar>c\<bar> * d)"
        using cdlo by (intro mult_left_mono) (simp_all add: u_def)
      moreover have "(1 - u) * (\<bar>c\<bar> * d) = \<bar>c\<bar> * d - u * (\<bar>c\<bar> * d)"
        by (simp add: algebra_simps)
      then have "(1 - u) * (\<bar>c\<bar> * d) \<le> \<bar>p\<bar>"
        using p1 cd by linarith
      moreover have "(1::real) / 2 ^ 100 \<le> (1 - u) * (1 / 2 ^ 81)" by (simp add: u_def)
      ultimately show ?thesis by linarith
    qed
    have phi: "\<bar>p\<bar> \<le> 2 ^ 100"
    proof -
      have "(1 + u) * (\<bar>c\<bar> * d) = \<bar>c\<bar> * d + u * (\<bar>c\<bar> * d)" by (simp add: algebra_simps)
      then have "\<bar>p\<bar> \<le> (1 + u) * (\<bar>c\<bar> * d)" using p1 cd by linarith
      also have "\<dots> \<le> (1 + u) * 2 ^ 61" using cdhi by (intro mult_left_mono) (simp_all add: u_def)
      also have "\<dots> \<le> 2 ^ 100" by (simp add: u_def)
      finally show ?thesis .
    qed
    from sum32_constant [OF plo phi assms(2)] obtain s
      where s: "foldl add32 (Finite 0) (replicate n (Finite p)) = Finite s"
        and serr: "\<bar>s - N * p\<bar> \<le> ((1 + u) ^ n - 1) * (N * \<bar>p\<bar>)"
      by (auto simp: u_def N_def)
    define g where "g = (1 + u) ^ n - 1"
    have g0: "0 \<le> g" by (simp add: g_def u_def)
    have l0: "0 < l" using assms(4) by (rule less_le_trans [rotated]) simp
    have Nt: "N * t = \<bar>c * l\<bar>" using N l0 by (simp add: t_def r_def abs_mult)
    have N0: "0 \<le> N" using N by simp
    have "N * \<bar>p\<bar> \<le> N * ((1 + u)\<^sup>2 * t)" using pabs N0 by (rule mult_left_mono)
    then have "g * (N * \<bar>p\<bar>) \<le> g * (N * ((1 + u)\<^sup>2 * t))"
      using g0 by (rule mult_left_mono)
    with serr have s1: "\<bar>s - N * p\<bar> \<le> g * (1 + u)\<^sup>2 * (N * t)"
      by (simp add: g_def mult_ac)
    have "\<bar>N * p - c * l\<bar> = N * \<bar>p - c * r\<bar>"
    proof -
      have "N * p - c * l = N * (p - c * r)" using N by (simp add: algebra_simps r_def)
      then show ?thesis using N by (simp add: abs_mult)
    qed
    also have "\<dots> \<le> N * (((1 + u)\<^sup>2 - 1) * t)" using pt' N0 by (rule mult_left_mono)
    finally have s2: "\<bar>N * p - c * l\<bar> \<le> ((1 + u)\<^sup>2 - 1) * (N * t)" by (simp add: mult_ac)
    have "\<bar>s - c * l\<bar> \<le> g * (1 + u)\<^sup>2 * (N * t) + ((1 + u)\<^sup>2 - 1) * (N * t)"
      using s1 s2 by linarith
    also have "\<dots> = ((1 + g) * (1 + u)\<^sup>2 - 1) * (N * t)" by (simp add: algebra_simps)
    also have "(1 + g) * (1 + u)\<^sup>2 = (1 + u) ^ (n + 2)"
      unfolding g_def power_add by simp
    finally have "\<bar>s - c * l\<bar> \<le> ((1 + u) ^ (n + 2) - 1) * \<bar>c * l\<bar>" unfolding Nt .
    moreover have "sum32 (map (\<lambda>a. mul32 a (div32 (Finite l) (of_int32 (int n))))
                            (replicate n (Finite c))) = Finite s"
      unfolding terms sum32_def by (rule s)
    ultimately show ?thesis unfolding u_def by blast
  qed
qed

lemma compute_projection_values_float32_rows:
  "compute_projection_values_float32 k (replicate (length ls) row) (map Finite ls)
     = map (\<lambda>l. sum32 (map (\<lambda>a. mul32 a (div32 (Finite l) (of_int32 k))) row)) ls"
  by (induction ls) (simp_all add: compute_projection_values_float32_def)

text \<open>
  Claim C4 (amended). For a constant density \<open>c\<close> at each of the \<open>n\<close> samples of every ray,
  the integrator returns \<open>c * length\<close> up to rounding: the float it returns for a ray
  differs from \<open>c * length\<close> by at most \<open>(1 + 2^-24)^(n+2) - 1\<close> times \<open>|c * length|\<close>,
  one rounding for the spacing, one for the product, and one for each addition. This is
  for \<open>1 \<le> n \<le> 2^20\<close> and for \<open>|c|\<close> and the lengths between \<open>2^-30\<close> and \<open>2^30\<close>, where
  nothing overflows or becomes subnormal; for \<open>c = 0\<close> the result is exactly 0. (In
  exact arithmetic the result is \<open>c * length\<close>, lemma \<open>compute_projection_values_constant\<close>;
  in 32-bit floats it is not, the counterexample below.)
\<close>

theorem compute_projection_values_float32_constant:
  assumes "1 \<le> n" and "n \<le> 2 ^ 20"
    and "c = 0 \<or> (1 / 2 ^ 30 \<le> \<bar>c\<bar> \<and> \<bar>c\<bar> \<le> 2 ^ 30)"
    and "\<forall>l \<in> set ls. 1 / 2 ^ 30 \<le> l \<and> l \<le> 2 ^ 30"
  shows "list_all2
           (\<lambda>r l. \<exists>z. r = Finite z
                      \<and> \<bar>z - c * l\<bar> \<le> ((1 + 1 / 2 ^ 24) ^ (n + 2) - 1) * \<bar>c * l\<bar>)
           (compute_projection_values_float32 (int n)
              (replicate (length ls) (replicate n (Finite c))) (map Finite ls))
           ls"
  unfolding compute_projection_values_float32_rows list_all2_map1
proof (rule list_all2_all_nthI)
  show "length ls = length ls" by simp
next
  fix i
  assume "i < length ls"
  then have "1 / 2 ^ 30 \<le> ls ! i" "ls ! i \<le> 2 ^ 30" using assms(4) by simp_all
  with assms(1-3)
  show "\<exists>z. sum32 (map (\<lambda>a. mul32 a (div32 (Finite (ls ! i)) (of_int32 (int n))))
                      (replicate n (Finite c))) = Finite z
            \<and> \<bar>z - c * ls ! i\<bar> \<le> ((1 + 1 / 2 ^ 24) ^ (n + 2) - 1) * \<bar>c * ls ! i\<bar>"
    by (rule ray_float32_constant)
qed

lemma example_float32_integral:
  "compute_projection_values_float32 4 [[Finite 1, Finite 1, Finite 1, Finite 1]] [Finite 4]
     = [Finite 4]"
  by (simp add: compute_projection_values_float32_def of_int32_def sum32_def round32_small_integers)

theorem compute_projection_values_float32_constant_witness:
  "compute_projection_values_float32 4 [[Finite 1, Finite 1, Finite 1, Finite 1]] [Finite 4]
     = [Finite 4]
   \<and> list_all2
        (\<lambda>r l. \<exists>z. r = Finite z \<and> \<bar>z - 1 * l\<bar> \<le> ((1 + 1 / 2 ^ 24) ^ (4 + 2) - 1) * \<bar>1 * l\<bar>)
        (compute_projection_values_float32 4 [[Finite 1, Finite 1, Finite 1, Finite 1]] [Finite 4])
        [4]"
proof -
  have n: "1 \<le> (4::nat)" "(4::nat) \<le> 2 ^ 20" by simp_all
  have c: "(1::real) = 0 \<or> (1 / 2 ^ 30 \<le> \<bar>1::real\<bar> \<and> \<bar>1::real\<bar> \<le> 2 ^ 30)" by simp
  have l: "\<forall>l \<in> set [4::real]. 1 / 2 ^ 30 \<le> l \<and> l \<le> 2 ^ 30" by simp
  have r: "replicate (length [4::real]) (replicate 4 (Finite 1))
             = [[Finite 1, Finite 1, Finite 1, Finite 1]]"
    by (simp add: numeral_eq_Suc)
  from compute_projection_values_float32_constant [OF n c l]
  show ?thesis
    unfolding r using example_float32_integral by simp
qed

lemma length_is_float32: "round32 (12582913 / 8388608) = Finite (12582913 / 8388608)"
proof (rule round32_exact [where k = 12582913 and j = "- 23"])
  have "exponent32 (12582913 / 8388608) \<le> 0" by (intro exponent32_le) simp_all
  then show "exponent32 (12582913 / 8388608) - 23 \<le> - 23" by simp
qed (simp_all add: power_int_minus_divide)

lemma example_dx: "div32 (Finite (12582913 / 8388608)) (of_int32 3) = Finite (8388609 / 16777216)"
proof -
  have three: "of_int32 3 = Finite 3"
    using round32_of_int [of 3] by (simp add: of_int32_def)
  have e: "exponent32 (12582913 / 25165824) = - 1"
    by (rule exponent32_eq) (simp_all add: power_int_minus_divide)
  have "round32 (12582913 / 25165824) = Finite (8388609 / 16777216)"
    by (simp add: round32_def e round_half_even_def power_int_minus_divide Let_def)
  then show ?thesis by (simp add: three)
qed

lemma dx_is_float32: "round32 (8388609 / 16777216) = Finite (8388609 / 16777216)"
proof (rule round32_exact [where k = 8388609 and j = "- 24"])
  have "exponent32 (8388609 / 16777216) \<le> - 1"
    by (intro exponent32_le) (simp_all add: power_int_minus_divide)
  then show "exponent32 (8388609 / 16777216) - 23 \<le> - 24" by simp
qed (simp_all add: power_int_minus_divide)

lemma two_dx_is_float32: "round32 (8388609 / 8388608) = Finite (8388609 / 8388608)"
proof (rule round32_exact [where k = 8388609 and j = "- 23"])
  have "exponent32 (8388609 / 8388608) \<le> 0" by (intro exponent32_le) simp_all
  then show "exponent32 (8388609 / 8388608) - 23 \<le> - 23" by simp
qed (simp_all add: power_int_minus_divide)

lemma three_dx_rounds_up: "round32 (25165827 / 16777216) = Finite (6291457 / 4194304)"
proof -
  have e: "exponent32 (25165827 / 16777216) = 0"
    by (rule exponent32_eq) simp_all
  show ?thesis
    by (simp add: round32_def e round_half_even_def power_int_minus_divide Let_def)
qed

text \<open>
  The claim as the specification states it, exactly \<open>c * length\<close> for every \<open>n \<ge> 1\<close>,
  fails: three samples of density 1 on a ray of length \<open>1 + 2^-1 + 2^-23\<close>
  (1.5000001192092896, a float). The spacing \<open>length / 3\<close> rounds up to \<open>2^-1 + 2^-24\<close>;
  three times that is half-way between two floats and rounds to the even one,
  \<open>1 + 2^-1 + 2^-22\<close> (1.5000002384185791), which is not the length.
\<close>

theorem compute_projection_values_float32_inexact:
  "compute_projection_values_float32 3 [[Finite 1, Finite 1, Finite 1]]
       [Finite (12582913 / 8388608)]
     = [Finite (6291457 / 4194304)]
   \<and> (6291457 / 4194304 :: real) \<noteq> 1 * (12582913 / 8388608)
   \<and> round32 (12582913 / 8388608) = Finite (12582913 / 8388608)"
  using example_dx dx_is_float32 two_dx_is_float32 three_dx_rounds_up length_is_float32
  by (simp add: compute_projection_values_float32_def sum32_def)


end
